theory Spec2Isabelle
  imports Complex_Main "HOL-Library.Word" "HOL-Library.Multiset"
begin

section \<open>Elevation builder: data model\<close>

text \<open>
  The development embeds \<^verbatim>\<open>src/mjolnir/elevationbuilder.cc\<close>. A value of the C++
  types \<^verbatim>\<open>double\<close> and \<^verbatim>\<open>float\<close> is modelled by the real number that it denotes;
  infinities and NaN are outside the model. The result of an arithmetic operation on
  \<^verbatim>\<open>double\<close> and of a narrowing to \<^verbatim>\<open>float\<close> is rounded to the nearest value of
  the format, ties to even, as IEEE 754 has it for binary64 and binary32 (section
  "Floating point" below). \<^verbatim>\<open>uint32_t\<close> is a 32-bit word.
\<close>

type_synonym double = real
type_synonym float = real
type_synonym uint32_t = "32 word"

text \<open>
  Modelled from the spec: \<^verbatim>\<open>GraphId\<close> and \<^verbatim>\<open>PointLL\<close> are declared in headers that
  are not part of the source at hand. A tile identifier is an opaque key, a point is a
  longitude and a latitude.
\<close>

type_synonym GraphId = nat
type_synonym PointLL = "real \<times> real"

text \<open>
  Modelled from the spec: the enumeration \<^verbatim>\<open>Use\<close> of \<^verbatim>\<open>baldr/graphconstants.h\<close>
  is not part of the source at hand. The builder only compares a use with
  \<^verbatim>\<open>Use::kFerry\<close>, so every other enumerator is \<open>kOtherUse n\<close>.
\<close>

datatype Use = kFerry | kOtherUse nat

text \<open>
  Modelled from the spec: the class \<^verbatim>\<open>DirectedEdge\<close> is not part of the source at
  hand. The record has the fields that the builder reads (offset, length in whole metres,
  tunnel, bridge, use, forward) and the three it writes through
  \<^verbatim>\<open>set_weighted_grade\<close>, \<^verbatim>\<open>set_max_up_slope\<close> and \<^verbatim>\<open>set_max_down_slope\<close>;
  a written field holds the argument that the builder passes to the setter.
\<close>

record DirectedEdge =
  edgeinfo_offset :: uint32_t
  length_m :: nat
  tunnel :: bool
  bridge :: bool
  use :: Use
  forward :: bool
  weighted_grade_field :: uint32_t
  max_up_slope :: float
  max_down_slope :: float

text \<open>
  Modelled from the spec: the class \<^verbatim>\<open>GraphTileBuilder\<close> is not part of the source at
  hand. A tile is what the builder reads and writes through it: the header flag, the
  directed edges by index, and per \<^verbatim>\<open>EdgeInfo\<close> offset the shape and the mean
  elevation.
\<close>

record tile =
  has_elevation :: bool
  directededges :: "DirectedEdge list"
  shapes :: "uint32_t \<Rightarrow> PointLL list"
  mean_elevation :: "uint32_t \<rightharpoonup> float"

text \<open>
  The value type of \<^verbatim>\<open>cache_t\<close>:
  \<^verbatim>\<open>std::tuple<uint32_t, uint32_t, float, float, float, float>\<close>, components 0 to 5.
\<close>

record cache_entry =
  forward_grade :: uint32_t
  reverse_grade :: uint32_t
  forward_max_up :: float
  forward_max_down :: float
  reverse_max_up :: float
  reverse_max_down :: float

type_synonym cache_t = "uint32_t \<rightharpoonup> cache_entry"

type_synonym grades_t = "double \<times> double \<times> double \<times> double"

definition get0 :: "grades_t \<Rightarrow> double" where
  "get0 g = fst g"

definition get1 :: "grades_t \<Rightarrow> double" where
  "get1 g = fst (snd g)"

definition get2 :: "grades_t \<Rightarrow> double" where
  "get2 g = fst (snd (snd g))"

definition get3 :: "grades_t \<Rightarrow> double" where
  "get3 g = snd (snd (snd g))"

text \<open>
  The collaborators that the builder calls and that live outside this file, taken as
  parameters: the height service \<^verbatim>\<open>sample->get_all\<close>, \<^verbatim>\<open>skadi::weighted_grade\<close>
  (weighted grade, max up slope, max down slope, mean elevation),
  \<^verbatim>\<open>midgard::resample_spherical_polyline\<close>, the constants
  \<^verbatim>\<open>skadi::get_no_data_value()\<close> and \<^verbatim>\<open>kNoElevationData\<close>, and the two operations of
  the \<^verbatim>\<open>GraphReader\<close> (of state \<open>'r\<close>) that the builder uses.
\<close>

record 'r collaborators =
  get_all :: "PointLL list \<Rightarrow> double list"
  weighted_grade :: "double list \<Rightarrow> double \<Rightarrow> grades_t"
  resample_spherical_polyline :: "PointLL list \<Rightarrow> double \<Rightarrow> PointLL list"
  get_no_data_value :: double
  kNoElevationData :: float
  OverCommitted :: "'r \<Rightarrow> bool"
  Trim :: "'r \<Rightarrow> 'r"

text \<open>
  The calls made to the collaborators are recorded, in order, so that "is sampled" and
  "runs once" can be stated.
\<close>

datatype call =
  Resample "PointLL list" double
| GetAll "PointLL list"
| WeightedGrade "double list" double

fun is_height_query :: "call \<Rightarrow> bool" where
  "is_height_query (GetAll points) = True"
| "is_height_query c = False"

text \<open>
  What the C++ leaves undefined is an error of the model: \<^verbatim>\<open>front()\<close> of an empty
  shape, the conversion to \<^verbatim>\<open>uint32_t\<close> of a \<^verbatim>\<open>double\<close> whose truncation does
  not fit, and the narrowing to \<^verbatim>\<open>float\<close> of a \<^verbatim>\<open>double\<close> beyond the range of
  \<^verbatim>\<open>float\<close>. \<open>ThreadsNotJoined\<close> stands for an interleaving that ends before every
  thread has left its loop, where \<^verbatim>\<open>join\<close> has not returned.
\<close>

datatype error = EmptyShape | ConversionOutOfRange | ThreadsNotJoined

section \<open>Floating point\<close>

text \<open>
  The number of binary digits of a natural number, and the powers of two with an integer
  exponent.
\<close>

function bit_length :: "nat \<Rightarrow> nat" where
  "bit_length n = (if n = 0 then 0 else Suc (bit_length (n div 2)))"
  by pat_completeness auto
termination
  by (relation "measure id") auto

declare bit_length.simps [simp del]

definition pow2 :: "int \<Rightarrow> real" where
  "pow2 e = (if 0 \<le> e then 2 ^ nat e else 1 / 2 ^ nat (- e))"

text \<open>
  The binary exponent of a real \<open>x \<noteq> 0\<close>: the integer \<open>e\<close> with
  \<open>2 ^ e \<le> \<bar>x\<bar> < 2 ^ (e + 1)\<close>. For \<open>\<bar>x\<bar> < 1\<close> it is found from the ceiling of
  \<open>1 / \<bar>x\<bar>\<close>.
\<close>

definition binary_exponent :: "real \<Rightarrow> int" where
  "binary_exponent x =
     (let a = \<bar>x\<bar>
      in if 1 \<le> a then int (bit_length (nat \<lfloor>a\<rfloor>)) - 1
         else - int (bit_length (nat (- \<lfloor>- (1 / a)\<rfloor> - 1))))"

text \<open>The nearest integer, a tie going to the even one.\<close>

definition round_half_even :: "real \<Rightarrow> int" where
  "round_half_even x =
     (let n = \<lfloor>x\<rfloor>; r = x - of_int n
      in if r < 1 / 2 then n else if 1 / 2 < r then n + 1 else if even n then n else n + 1)"

text \<open>
  Rounding to a binary format with \<open>p\<close> digits and least exponent \<open>emin\<close>: the
  nearest multiple of \<open>2 ^ (e - p + 1)\<close>, where \<open>e\<close> is the binary exponent of the
  number and not less than \<open>emin\<close> (below \<open>2 ^ emin\<close> the values are subnormal).
  binary64 has 53 digits and least exponent \<open>- 1022\<close>, binary32 has 24 digits and least
  exponent \<open>- 126\<close>.
\<close>

definition round_to_format :: "nat \<Rightarrow> int \<Rightarrow> real \<Rightarrow> real" where
  "round_to_format p emin x =
     (if x = 0 then 0
      else (let e = max (binary_exponent x) emin; q = pow2 (e - int p + 1)
            in of_int (round_half_even (x / q)) * q))"

definition round_double :: "real \<Rightarrow> double" where
  "round_double x = round_to_format 53 (- 1022) x"

definition round_float :: "real \<Rightarrow> float" where
  "round_float x = round_to_format 24 (- 126) x"

text \<open>
  The conversion of a \<^verbatim>\<open>double\<close> to \<^verbatim>\<open>float\<close>. The largest \<^verbatim>\<open>float\<close> is
  \<open>(2 ^ 24 - 1) * 2 ^ 104\<close>; the conversion of a value beyond it is undefined in C++.
\<close>

definition float_max :: real where
  "float_max = (2 ^ 24 - 1) * 2 ^ 104"

definition float_of_double :: "double \<Rightarrow> error + float" where
  "float_of_double x =
     (if \<bar>x\<bar> \<le> float_max then Inr (round_float x) else Inl ConversionOutOfRange)"

section \<open>Constants and the grade bucket\<close>

definition POSTING_INTERVAL :: double where
  "POSTING_INTERVAL = 60"

definition kMinimumInterval :: double where
  "kMinimumInterval = 10"

text \<open>
  \<^verbatim>\<open>static_cast<uint32_t>(x)\<close> for a \<^verbatim>\<open>double\<close> \<open>x\<close>: the fractional part is
  discarded (truncation toward zero); the behaviour is undefined when the truncated value
  is not a \<^verbatim>\<open>uint32_t\<close>.
\<close>

definition truncate_toward_zero :: "double \<Rightarrow> int" where
  "truncate_toward_zero x = (if 0 \<le> x then \<lfloor>x\<rfloor> else - \<lfloor>- x\<rfloor>)"

definition uint32_of_double :: "double \<Rightarrow> error + uint32_t" where
  "uint32_of_double x =
     (if - 1 < x \<and> x < 2 ^ 32 then Inr (word_of_int (truncate_toward_zero x))
      else Inl ConversionOutOfRange)"

text \<open>
  Lines 103 and 104: \<^verbatim>\<open>static_cast<uint32_t>(std::get<0>(grades) * .6 + 6.5)\<close>. The
  literal \<^verbatim>\<open>.6\<close> is the \<^verbatim>\<open>double\<close> nearest to 0.6, the product is rounded, and so
  is the sum (two operations, not one fused multiply-add); \<^verbatim>\<open>6.5\<close> is a \<^verbatim>\<open>double\<close>
  as it stands.
\<close>

definition scaled_grade :: "double \<Rightarrow> double" where
  "scaled_grade g = round_double (round_double (g * round_double 0.6) + 6.5)"

definition grade_bucket :: "double \<Rightarrow> error + uint32_t" where
  "grade_bucket g = uint32_of_double (scaled_grade g)"

section \<open>The computation on a cache miss\<close>

text \<open>
  Lines 73 to 81: the points to sample and the interval. A short edge or a bridge takes
  the two ends of the shape and its own length, any other edge is resampled every
  \<open>POSTING_INTERVAL\<close> metres.
\<close>

definition sample_points ::
  "'r collaborators \<Rightarrow> PointLL list \<Rightarrow> DirectedEdge \<Rightarrow> error + (PointLL list \<times> double \<times> call list)"
where
  "sample_points env shape de =
     (if real (length_m de) < POSTING_INTERVAL * 3 \<or> bridge de
      then (case shape of
              [] \<Rightarrow> Inl EmptyShape
            | p # ps \<Rightarrow> Inr ([p, last (p # ps)], real (length_m de), []))
      else Inr (resample_spherical_polyline env shape POSTING_INTERVAL, POSTING_INTERVAL,
                [Resample shape POSTING_INTERVAL]))"

text \<open>
  Lines 69 to 100: the forward and the reverse grade tuples of one edge, with the calls
  made.
\<close>

definition compute_grades ::
  "'r collaborators \<Rightarrow> PointLL list \<Rightarrow> DirectedEdge \<Rightarrow> error + (grades_t \<times> grades_t \<times> call list)"
where
  "compute_grades env shape de =
     (if \<not> tunnel de \<and> use de \<noteq> kFerry
      then (case sample_points env shape de of
              Inl e \<Rightarrow> Inl e
            | Inr (resampled, interval, cs) \<Rightarrow>
                (let heights = get_all env resampled;
                     grades = weighted_grade env heights interval
                 in if real (length_m de) < kMinimumInterval
                    then Inr ((0, 0, 0, get3 grades), (0, 0, 0, get3 grades),
                              cs @ [GetAll resampled, WeightedGrade heights interval])
                    else Inr (grades, weighted_grade env (rev heights) interval,
                              cs @ [GetAll resampled, WeightedGrade heights interval,
                                    WeightedGrade (rev heights) interval])))
      else Inr ((0, 0, 0, 0), (0, 0, 0, 0), []))"

text \<open>
  Lines 103 to 109: the cache entry made from the two tuples. The two buckets are
  converted first; the four slopes are \<^verbatim>\<open>double\<close> in the tuples and \<^verbatim>\<open>float\<close> in the
  entry.
\<close>

definition make_entry :: "grades_t \<Rightarrow> grades_t \<Rightarrow> error + cache_entry" where
  "make_entry forward_grades reverse_grades =
     (case grade_bucket (get0 forward_grades) of
        Inl e \<Rightarrow> Inl e
      | Inr fg \<Rightarrow>
          (case grade_bucket (get0 reverse_grades) of
             Inl e \<Rightarrow> Inl e
           | Inr rg \<Rightarrow>
               (case float_of_double (get1 forward_grades) of
                  Inl e \<Rightarrow> Inl e
                | Inr fu \<Rightarrow>
                    (case float_of_double (get2 forward_grades) of
                       Inl e \<Rightarrow> Inl e
                     | Inr fd \<Rightarrow>
                         (case float_of_double (get1 reverse_grades) of
                            Inl e \<Rightarrow> Inl e
                          | Inr ru \<Rightarrow>
                              (case float_of_double (get2 reverse_grades) of
                                 Inl e \<Rightarrow> Inl e
                               | Inr rd \<Rightarrow>
                                   Inr \<lparr>forward_grade = fg, reverse_grade = rg,
                                        forward_max_up = fu, forward_max_down = fd,
                                        reverse_max_up = ru, reverse_max_down = rd\<rparr>))))))"

text \<open>
  Lines 113 to 117: the value handed to \<^verbatim>\<open>set_mean_elevation\<close>. The mean of the forward
  tuple is narrowed to \<^verbatim>\<open>float\<close>; that \<^verbatim>\<open>float\<close> is compared with the service's
  no-data value and is stored unless they are equal.
\<close>

definition stored_mean :: "'r collaborators \<Rightarrow> grades_t \<Rightarrow> error + float" where
  "stored_mean env forward_grades =
     (case float_of_double (get3 forward_grades) of
        Inl e \<Rightarrow> Inl e
      | Inr mean_elev \<Rightarrow>
          Inr (if mean_elev = get_no_data_value env then kNoElevationData env else mean_elev))"

text \<open>\<^verbatim>\<open>unordered_map::insert\<close> keeps an entry that is already there.\<close>

definition cache_insert :: "cache_t \<Rightarrow> uint32_t \<Rightarrow> cache_entry \<Rightarrow> cache_t" where
  "cache_insert c k v = (case c k of None \<Rightarrow> c(k \<mapsto> v) | Some _ \<Rightarrow> c)"

section \<open>One tile\<close>

text \<open>
  The state of the loop over the directed edges: the cache, the mean elevations set so
  far, and for every cache miss the offset with the collaborator calls that its
  computation made.
\<close>

record loop_state =
  cache :: cache_t
  mean_elevations :: "uint32_t \<rightharpoonup> float"
  computations :: "(uint32_t \<times> call list) list"

text \<open>
  Lines 60 to 118: the entry \<^verbatim>\<open>found\<close> for an edge, from the cache or else computed,
  inserted, and its mean elevation set.
\<close>

definition find_or_compute ::
  "'r collaborators \<Rightarrow> (uint32_t \<Rightarrow> PointLL list) \<Rightarrow> DirectedEdge \<Rightarrow> loop_state
     \<Rightarrow> error + (cache_entry \<times> loop_state)"
where
  "find_or_compute env shp de st =
     (let edge_info_offset = edgeinfo_offset de
      in case cache st edge_info_offset of
           Some found \<Rightarrow> Inr (found, st)
         | None \<Rightarrow>
             (case compute_grades env (shp edge_info_offset) de of
                Inl e \<Rightarrow> Inl e
              | Inr (forward_grades, reverse_grades, cs) \<Rightarrow>
                  (case make_entry forward_grades reverse_grades of
                     Inl e \<Rightarrow> Inl e
                   | Inr inserted \<Rightarrow>
                       (case stored_mean env forward_grades of
                          Inl e \<Rightarrow> Inl e
                        | Inr mean_elev \<Rightarrow>
                            Inr (inserted,
                                 st\<lparr>cache := cache_insert (cache st) edge_info_offset inserted,
                                    mean_elevations := (mean_elevations st)
                                      (edge_info_offset \<mapsto> mean_elev),
                                    computations :=
                                      computations st @ [(edge_info_offset, cs)]\<rparr>)))))"

text \<open>
  Lines 122 to 128: a forward edge takes components 0, 2 and 3 of the entry, any other
  edge components 1, 4 and 5.
\<close>

definition apply_entry :: "DirectedEdge \<Rightarrow> cache_entry \<Rightarrow> DirectedEdge" where
  "apply_entry de found =
     de\<lparr>weighted_grade_field := (if forward de then forward_grade found else reverse_grade found),
        max_up_slope := (if forward de then forward_max_up found else reverse_max_up found),
        max_down_slope := (if forward de then forward_max_down found else reverse_max_down found)\<rparr>"

text \<open>Lines 55 to 129: the loop, edge by edge in index order.\<close>

fun edge_loop ::
  "'r collaborators \<Rightarrow> (uint32_t \<Rightarrow> PointLL list) \<Rightarrow> DirectedEdge list \<Rightarrow> loop_state
     \<Rightarrow> error + (DirectedEdge list \<times> loop_state)"
where
  "edge_loop env shp [] st = Inr ([], st)"
| "edge_loop env shp (de # des) st =
     (case find_or_compute env shp de st of
        Inl e \<Rightarrow> Inl e
      | Inr (found, st') \<Rightarrow>
          (case edge_loop env shp des st' of
             Inl e \<Rightarrow> Inl e
           | Inr (des', st'') \<Rightarrow> Inr (apply_entry de found # des', st'')))"

text \<open>Line 51: \<^verbatim>\<open>cache.clear()\<close>.\<close>

definition cache_clear :: "cache_t \<Rightarrow> cache_t" where
  "cache_clear c = Map.empty"

text \<open>
  Lines 36 to 140. The result is the reader, the cache as the loop leaves it, the tile as
  \<^verbatim>\<open>StoreTileData\<close> writes it, and the computations made.
\<close>

definition add_elevations_to_single_tile ::
  "'r collaborators \<Rightarrow> 'r \<Rightarrow> cache_t \<Rightarrow> tile
     \<Rightarrow> error + ('r \<times> cache_t \<times> tile \<times> (uint32_t \<times> call list) list)"
where
  "add_elevations_to_single_tile env graphreader c t =
     (let tilebuilder = t\<lparr>has_elevation := True\<rparr>
      in case edge_loop env (shapes tilebuilder) (directededges tilebuilder)
                \<lparr>cache = cache_clear c, mean_elevations = mean_elevation tilebuilder,
                 computations = []\<rparr> of
           Inl e \<Rightarrow> Inl e
         | Inr (des, st) \<Rightarrow>
             Inr (if OverCommitted env graphreader then Trim env graphreader else graphreader,
                  cache st,
                  tilebuilder\<lparr>directededges := des, mean_elevation := mean_elevations st\<rparr>,
                  computations st))"

section \<open>Workers and the tile queue\<close>

text \<open>
  A worker is at the head of its loop, holds a tile identifier that it has popped and
  not yet processed, or has left the loop.
\<close>

datatype status = AtLoopHead | Holding GraphId | Finished

record 'r worker =
  graphreader_of :: 'r
  geo_attribute_cache :: cache_t
  status_of :: status

text \<open>
  The queue shared by the workers, the tile store, the workers, and two logs: who popped
  which identifier, and who processed which tile, in the order it happened.
\<close>

record 'r pool =
  tilequeue :: "GraphId list"
  store :: "GraphId \<Rightarrow> tile"
  workers :: "'r worker list"
  popped :: "(nat \<times> GraphId) list"
  processed :: "(nat \<times> GraphId) list"

text \<open>
  Lines 159 to 171, one step of worker \<open>w\<close>. The test for emptiness, \<^verbatim>\<open>front\<close> and
  \<^verbatim>\<open>pop_front\<close> happen under the mutex and are one step; processing the popped tile
  is the next step of that worker.
\<close>

definition worker_step :: "'r collaborators \<Rightarrow> nat \<Rightarrow> 'r pool \<Rightarrow> error + 'r pool" where
  "worker_step env w p =
     (if length (workers p) \<le> w then Inr p
      else
        (let me = workers p ! w
         in case status_of me of
              Finished \<Rightarrow> Inr p
            | AtLoopHead \<Rightarrow>
                (case tilequeue p of
                   [] \<Rightarrow> Inr (p\<lparr>workers := (workers p)[w := me\<lparr>status_of := Finished\<rparr>]\<rparr>)
                 | tile_id # rest \<Rightarrow>
                     Inr (p\<lparr>tilequeue := rest,
                            workers := (workers p)[w := me\<lparr>status_of := Holding tile_id\<rparr>],
                            popped := popped p @ [(w, tile_id)]\<rparr>))
            | Holding tile_id \<Rightarrow>
                (case add_elevations_to_single_tile env (graphreader_of me)
                        (geo_attribute_cache me) (store p tile_id) of
                   Inl e \<Rightarrow> Inl e
                 | Inr (r, c, t, tr) \<Rightarrow>
                     Inr (p\<lparr>store := (store p)(tile_id := t),
                            workers := (workers p)
                              [w := \<lparr>graphreader_of = r, geo_attribute_cache = c,
                                     status_of = AtLoopHead\<rparr>],
                            processed := processed p @ [(w, tile_id)]\<rparr>))))"

text \<open>
  An interleaving of the threads is the list of the workers that take the successive
  steps.
\<close>

fun run_workers :: "'r collaborators \<Rightarrow> nat list \<Rightarrow> 'r pool \<Rightarrow> error + 'r pool" where
  "run_workers env [] p = Inr p"
| "run_workers env (w # ws) p =
     (case worker_step env w p of Inl e \<Rightarrow> Inl e | Inr p' \<Rightarrow> run_workers env ws p')"

text \<open>
  Lines 150 to 156 and 214 to 219: every thread starts at the head of its loop with a
  reader of its own and an empty cache.
\<close>

definition start_workers :: "'r \<Rightarrow> nat \<Rightarrow> GraphId list \<Rightarrow> (GraphId \<Rightarrow> tile) \<Rightarrow> 'r pool" where
  "start_workers new_reader nthreads tile_ids tiles =
     \<lparr>tilequeue = tile_ids, store = tiles,
      workers = replicate nthreads
        \<lparr>graphreader_of = new_reader, geo_attribute_cache = Map.empty, status_of = AtLoopHead\<rparr>,
      popped = [], processed = []\<rparr>"

definition all_finished :: "'r pool \<Rightarrow> bool" where
  "all_finished p = list_all (\<lambda>wk. status_of wk = Finished) (workers p)"

section \<open>Build\<close>

text \<open>The two configuration entries that \<^verbatim>\<open>Build\<close> reads.\<close>

record config =
  additional_data_elevation :: "string option"
  mjolnir_concurrency :: "nat option"

datatype log_message =
  WARN_elevation_storage_missing
| INFO_adding_elevation nat nat
| INFO_finished

text \<open>
  What \<^verbatim>\<open>Build\<close> can observe and change: which paths exist, the hardware concurrency,
  the tiles, the identifiers that \<^verbatim>\<open>get_tile_ids\<close> returns (the reader's tile set in
  the order its shuffle gives), the log, and the number of threads started so far.
\<close>

record world =
  filesystem_exists :: "string \<Rightarrow> bool"
  hardware_concurrency :: nat
  tiles_of :: "GraphId \<Rightarrow> tile"
  get_tile_ids :: "GraphId list"
  logged :: "log_message list"
  threads_started :: nat

text \<open>
  Lines 193 to 226. The threads run under the given interleaving; joining them needs all
  of them to have left the loop.
\<close>

definition Build ::
  "'r collaborators \<Rightarrow> 'r \<Rightarrow> nat list \<Rightarrow> config \<Rightarrow> world \<Rightarrow> GraphId list \<Rightarrow> error + world"
where
  "Build env new_reader schedule pt wd tile_ids =
     (if (case additional_data_elevation pt of
            None \<Rightarrow> True
          | Some elevation \<Rightarrow> \<not> filesystem_exists wd elevation)
      then Inr (wd\<lparr>logged := logged wd @ [WARN_elevation_storage_missing]\<rparr>)
      else
        (let nthreads = max 1 (case mjolnir_concurrency pt of
                                 Some n \<Rightarrow> n
                               | None \<Rightarrow> hardware_concurrency wd);
             ids = (if tile_ids = [] then get_tile_ids wd else tile_ids)
         in case run_workers env schedule (start_workers new_reader nthreads ids (tiles_of wd)) of
              Inl e \<Rightarrow> Inl e
            | Inr p \<Rightarrow>
                if all_finished p
                then Inr (wd\<lparr>tiles_of := store p,
                             logged := logged wd @
                               [INFO_adding_elevation (length ids) nthreads, INFO_finished],
                             threads_started := threads_started wd + nthreads\<rparr>)
                else Inl ThreadsNotJoined))"

section \<open>The flat entry and a sample instance\<close>

text \<open>
  The entry of an edge without grade: bucket 6, which is the bucket of grade 0, in both
  directions, and no slope.
\<close>

definition flat_entry :: cache_entry where
  "flat_entry =
     \<lparr>forward_grade = 6, reverse_grade = 6, forward_max_up = 0, forward_max_down = 0,
      reverse_max_up = 0, reverse_max_down = 0\<rparr>"

text \<open>
  A small instance on which the model is run. The height of a point is its second
  coordinate; the sample grade algorithm takes the slope in percent between the first and
  the last height, counts a descent half, and returns the mean of the two heights;
  resampling returns the shape; the no-data value is \<open>- 32768\<close> and the stored
  sentinel \<open>32768\<close>; the reader is never over-committed.
\<close>

definition example_heights :: "PointLL list \<Rightarrow> double list" where
  "example_heights points = map snd points"

definition example_weighted_grade :: "double list \<Rightarrow> double \<Rightarrow> grades_t" where
  "example_weighted_grade heights interval =
     (case heights of
        [] \<Rightarrow> (0, 0, 0, - 32768)
      | h # hs \<Rightarrow>
          (let slope = 100 * (last (h # hs) - h) / interval
           in (if 0 < slope then slope else slope / 2, max slope 0, min slope 0,
               (h + last (h # hs)) / 2)))"

definition example_env :: "unit collaborators" where
  "example_env =
     \<lparr>get_all = example_heights, weighted_grade = example_weighted_grade,
      resample_spherical_polyline = (\<lambda>shape interval. shape),
      get_no_data_value = - 32768, kNoElevationData = 32768,
      OverCommitted = (\<lambda>r. False), Trim = (\<lambda>r. r)\<rparr>"

text \<open>
  A forward edge of 100 metres at offset 7, and a tile whose shapes all climb from 10 to
  16 metres.
\<close>

definition example_edge :: DirectedEdge where
  "example_edge =
     \<lparr>edgeinfo_offset = 7, length_m = 100, tunnel = False, bridge = False, use = kOtherUse 0,
      forward = True, weighted_grade_field = 0, max_up_slope = 0, max_down_slope = 0\<rparr>"

definition example_tile :: "DirectedEdge list \<Rightarrow> tile" where
  "example_tile des =
     \<lparr>has_elevation = False, directededges = des,
      shapes = (\<lambda>off. [(0, 10), (0, 12), (0, 16)]), mean_elevation = Map.empty\<rparr>"

definition example_world :: world where
  "example_world =
     \<lparr>filesystem_exists = (\<lambda>path. path = ''/data/elevation''), hardware_concurrency = 4,
      tiles_of = (\<lambda>tile_id. example_tile [example_edge, example_edge\<lparr>forward := False\<rparr>]),
      get_tile_ids = [2, 0, 1], logged = [], threads_started = 0\<rparr>"

text \<open>
  For the proofs about the queue: the identifiers that workers hold between popping and
  processing, and what the steps of the workers keep true. The pops so far followed by
  the queue are the initial list; every popped identifier is processed or still held;
  once a worker has left its loop the queue is empty.
\<close>

definition holding :: "'r worker \<Rightarrow> GraphId list" where
  "holding wk = (case status_of wk of Holding tile_id \<Rightarrow> [tile_id] | _ \<Rightarrow> [])"

definition held_tile_ids :: "'r pool \<Rightarrow> GraphId list" where
  "held_tile_ids p = concat (map holding (workers p))"

definition pool_invariant :: "GraphId list \<Rightarrow> 'r pool \<Rightarrow> bool" where
  "pool_invariant tile_ids p \<longleftrightarrow>
     map snd (popped p) @ tilequeue p = tile_ids \<and>
     mset (map snd (processed p)) + mset (held_tile_ids p) = mset (map snd (popped p)) \<and>
     (list_ex (\<lambda>wk. status_of wk = Finished) (workers p) \<longrightarrow> tilequeue p = [])"

text \<open>
  An interleaving that lets the workers finish one after the other: each worker in turn
  takes twice the length of the queue and two more steps, enough to process the tile it
  holds, to pop and process what is in the queue, and to find the queue empty.
\<close>

definition finishing_schedule :: "'r pool \<Rightarrow> nat list" where
  "finishing_schedule p =
     concat (map (replicate (2 * length (tilequeue p) + 2)) [0..<length (workers p)])"

text \<open>The steps that a worker needs to leave its loop when no other worker takes a step.\<close>

definition steps_needed :: "'r pool \<Rightarrow> nat \<Rightarrow> nat" where
  "steps_needed p w =
     (case status_of (workers p ! w) of
        Finished \<Rightarrow> 0
      | AtLoopHead \<Rightarrow> 2 * length (tilequeue p) + 1
      | Holding tile_id \<Rightarrow> 2 * length (tilequeue p) + 2)"

text \<open>
  The work that remains: two steps for every identifier in the queue (pop and process), and
  for every worker the steps it has to take by itself, two when it holds a tile (process,
  then find the queue empty), one at the head of its loop, none when it has left the loop.
\<close>

definition worker_work :: "'r worker \<Rightarrow> nat" where
  "worker_work wk =
     (case status_of wk of Finished \<Rightarrow> 0 | AtLoopHead \<Rightarrow> 1 | Holding tile_id \<Rightarrow> 2)"

definition remaining_work :: "'r pool \<Rightarrow> nat" where
  "remaining_work p = 2 * length (tilequeue p) + sum_list (map worker_work (workers p))"

section \<open>Properties of the floating-point functions\<close>

lemma bit_length_0 [simp]: "bit_length 0 = 0"
  by (simp add: bit_length.simps [of 0])

lemma bit_length_pos: "0 < n \<Longrightarrow> bit_length n = Suc (bit_length (n div 2))"
  by (subst bit_length.simps) simp

lemma bit_length_Suc_0 [simp]: "bit_length (Suc 0) = Suc 0"
  by (simp add: bit_length_pos)

lemma bit_length_numeral [simp]:
  "bit_length (numeral k) = Suc (bit_length (numeral k div 2))"
  by (simp add: bit_length_pos)

text \<open>
  The functions meet their descriptions: the binary exponent brackets the number between
  two powers of two, and rounding moves a number by at most half a unit of the last place.
\<close>

lemma bit_length_bounds:
  "0 < n \<Longrightarrow> 2 ^ (bit_length n - 1) \<le> n \<and> n < 2 ^ bit_length n"
proof (induction n rule: bit_length.induct)
  case (1 n)
  show ?case
  proof (cases "n div 2 = 0")
    case True
    with "1.prems" have "n = 1" by (cases n) auto
    then show ?thesis by simp
  next
    case False
    then have pos: "0 < n div 2" by simp
    from "1.prems" have n0: "n \<noteq> 0" by simp
    from "1.IH" [OF n0 pos]
    have lo: "2 ^ (bit_length (n div 2) - 1) \<le> n div 2" and hi: "n div 2 < 2 ^ bit_length (n div 2)"
      by simp_all
    have bl: "bit_length n = Suc (bit_length (n div 2))"
      using n0 by (simp add: bit_length_pos)
    from pos have blpos: "0 < bit_length (n div 2)"
      by (simp add: bit_length_pos)
    from lo have "2 * 2 ^ (bit_length (n div 2) - 1) \<le> n" by simp
    with blpos have a: "2 ^ bit_length (n div 2) \<le> n"
      by (cases "bit_length (n div 2)") simp_all
    from hi have b: "n < 2 * 2 ^ bit_length (n div 2)" by simp
    from a b show ?thesis by (simp add: bl)
  qed
qed

lemma pow2_pos: "0 < pow2 e"
  by (simp add: pow2_def)

lemma pow2_of_nat: "pow2 (int k) = 2 ^ k"
  by (simp add: pow2_def)

lemma pow2_neg_nat: "pow2 (- int k) = 1 / 2 ^ k"
  by (auto simp: pow2_def)

lemma binary_exponent_bounds:
  assumes "x \<noteq> 0"
  shows "pow2 (binary_exponent x) \<le> \<bar>x\<bar> \<and> \<bar>x\<bar> < pow2 (binary_exponent x + 1)"
proof (cases "1 \<le> \<bar>x\<bar>")
  case True
  let ?n = "nat \<lfloor>\<bar>x\<bar>\<rfloor>"
  from True have n: "0 < ?n" by simp
  from bit_length_bounds [OF n]
  have lo: "2 ^ (bit_length ?n - 1) \<le> ?n" and hi: "?n < 2 ^ bit_length ?n" by simp_all
  from n have blpos: "0 < bit_length ?n" by (simp add: bit_length_pos)
  then have e: "binary_exponent x = int (bit_length ?n - 1)"
    using True by (simp add: binary_exponent_def Let_def of_nat_diff)
  have fl: "real ?n \<le> \<bar>x\<bar>" "\<bar>x\<bar> < real ?n + 1"
    using True by (simp_all add: of_nat_nat) (linarith+)?
  from lo have "(2::real) ^ (bit_length ?n - 1) \<le> real ?n"
    by (metis of_nat_le_iff of_nat_numeral of_nat_power)
  from this fl(1) have "(2::real) ^ (bit_length ?n - 1) \<le> \<bar>x\<bar>" by (rule order_trans)
  then have a: "pow2 (binary_exponent x) \<le> \<bar>x\<bar>"
    by (simp only: e pow2_of_nat)
  from hi have "Suc ?n \<le> 2 ^ bit_length ?n" by (rule Suc_leI)
  then have "real (Suc ?n) \<le> real (2 ^ bit_length ?n)" by (simp only: of_nat_le_iff)
  then have "1 + real ?n \<le> 2 ^ bit_length ?n"
    by (simp only: of_nat_Suc of_nat_power of_nat_numeral)
  with fl(2) have "\<bar>x\<bar> < 2 ^ bit_length ?n" by linarith
  moreover have "pow2 (binary_exponent x + 1) = 2 ^ bit_length ?n"
  proof -
    from blpos obtain k where k: "bit_length ?n = Suc k" by (cases "bit_length ?n") auto
    then have "binary_exponent x + 1 = int (Suc k)" by (simp add: e)
    then show ?thesis by (simp add: pow2_of_nat k del: of_nat_Suc)
  qed
  ultimately show ?thesis using a by simp
next
  case False
  with assms have a01: "0 < \<bar>x\<bar>" "\<bar>x\<bar> < 1" by simp_all
  let ?y = "1 / \<bar>x\<bar>"
  let ?m = "nat (- \<lfloor>- ?y\<rfloor> - 1)"
  from a01 have y1: "1 < ?y" by simp
  have ceil: "- \<lfloor>- ?y\<rfloor> = \<lceil>?y\<rceil>" by (simp add: ceiling_def)
  from y1 have c2: "2 \<le> \<lceil>?y\<rceil>" by linarith
  then have m: "0 < ?m" by (simp add: ceil)
  have my: "real ?m < ?y" "?y \<le> real ?m + 1"
    using c2 by (simp_all add: ceil of_nat_nat) (linarith+)?
  from bit_length_bounds [OF m]
  have lo: "2 ^ (bit_length ?m - 1) \<le> ?m" and hi: "?m < 2 ^ bit_length ?m" by simp_all
  from m have blpos: "0 < bit_length ?m" by (simp add: bit_length_pos)
  have e: "binary_exponent x = - int (bit_length ?m)"
    using False by (simp add: binary_exponent_def Let_def)
  from lo have "(2::real) ^ (bit_length ?m - 1) \<le> real ?m"
    by (metis of_nat_le_iff of_nat_numeral of_nat_power)
  from this my(1) have l2: "(2::real) ^ (bit_length ?m - 1) < ?y" by (rule le_less_trans)
  from hi have "Suc ?m \<le> 2 ^ bit_length ?m" by (rule Suc_leI)
  then have "real (Suc ?m) \<le> real (2 ^ bit_length ?m)" by (simp only: of_nat_le_iff)
  then have "1 + real ?m \<le> 2 ^ bit_length ?m"
    by (simp only: of_nat_Suc of_nat_power of_nat_numeral)
  with my(2) have h2: "?y \<le> 2 ^ bit_length ?m" by linarith
  from h2 a01 have A: "1 / 2 ^ bit_length ?m \<le> \<bar>x\<bar>"
    by (simp add: field_simps)
  from l2 a01 have B: "\<bar>x\<bar> < 1 / 2 ^ (bit_length ?m - 1)"
    by (simp add: field_simps)
  have "pow2 (binary_exponent x + 1) = 1 / 2 ^ (bit_length ?m - 1)"
  proof -
    from blpos obtain k where k: "bit_length ?m = Suc k" by (cases "bit_length ?m") auto
    then have "binary_exponent x + 1 = - int k" by (simp add: e)
    then show ?thesis by (simp add: pow2_neg_nat k del: of_nat_Suc)
  qed
  with A B show ?thesis by (simp add: e pow2_neg_nat)
qed

lemma round_half_even_near: "\<bar>of_int (round_half_even x) - x\<bar> \<le> 1 / 2"
proof -
  have "of_int \<lfloor>x\<rfloor> \<le> x" "x < of_int \<lfloor>x\<rfloor> + 1" by linarith+
  then show ?thesis
    by (auto simp: round_half_even_def Let_def abs_le_iff)
qed

lemma round_to_format_near:
  assumes "x \<noteq> 0"
  shows "\<bar>round_to_format p emin x - x\<bar> \<le>
           pow2 (max (binary_exponent x) emin - int p + 1) / 2"
proof -
  let ?q = "pow2 (max (binary_exponent x) emin - int p + 1)"
  have q: "0 < ?q" by (rule pow2_pos)
  have "round_to_format p emin x - x = (of_int (round_half_even (x / ?q)) - x / ?q) * ?q"
    using assms q by (simp add: round_to_format_def Let_def algebra_simps)
  then have "\<bar>round_to_format p emin x - x\<bar> = \<bar>of_int (round_half_even (x / ?q)) - x / ?q\<bar> * ?q"
    using q by (simp add: abs_mult)
  also have "\<dots> \<le> (1 / 2) * ?q"
    using round_half_even_near [of "x / ?q"] q by (intro mult_right_mono) simp_all
  finally show ?thesis by simp
qed

section \<open>Properties of the edge loop\<close>

lemma cache_insert_miss: "c k = None \<Longrightarrow> cache_insert c k v = c(k \<mapsto> v)"
  by (simp add: cache_insert_def)

lemma find_or_compute_hit:
  "cache st (edgeinfo_offset de) = Some found \<Longrightarrow> find_or_compute env shp de st = Inr (found, st)"
  by (simp add: find_or_compute_def)

lemma find_or_compute_miss:
  assumes "cache st (edgeinfo_offset de) = None"
    and "find_or_compute env shp de st = Inr (found, st')"
  shows "\<exists>fg rg cs mean_elev.
           compute_grades env (shp (edgeinfo_offset de)) de = Inr (fg, rg, cs) \<and>
           make_entry fg rg = Inr found \<and>
           stored_mean env fg = Inr mean_elev \<and>
           st' = st\<lparr>cache := (cache st)(edgeinfo_offset de \<mapsto> found),
                    mean_elevations := (mean_elevations st)(edgeinfo_offset de \<mapsto> mean_elev),
                    computations := computations st @ [(edgeinfo_offset de, cs)]\<rparr>"
  using assms
  by (auto simp: find_or_compute_def Let_def cache_insert_miss split: sum.splits prod.splits)

lemma find_or_compute_found:
  assumes "find_or_compute env shp de st = Inr (found, st')"
  shows "cache st' (edgeinfo_offset de) = Some found"
proof (cases "cache st (edgeinfo_offset de)")
  case None
  from find_or_compute_miss [OF None assms] show ?thesis by auto
next
  case (Some e)
  with assms show ?thesis by (simp add: find_or_compute_hit)
qed

lemma find_or_compute_mono:
  assumes "find_or_compute env shp de st = Inr (found, st')" and "cache st off = Some e"
  shows "cache st' off = Some e"
proof (cases "cache st (edgeinfo_offset de)")
  case None
  with assms(2) have "off \<noteq> edgeinfo_offset de" by auto
  with find_or_compute_miss [OF None assms(1)] assms(2) show ?thesis by auto
next
  case (Some e')
  with assms show ?thesis by (simp add: find_or_compute_hit)
qed

lemma find_or_compute_other:
  assumes "find_or_compute env shp de st = Inr (found, st')" and "edgeinfo_offset de \<noteq> off"
  shows "cache st' off = cache st off \<and> mean_elevations st' off = mean_elevations st off \<and>
         filter (\<lambda>x. fst x = off) (computations st') = filter (\<lambda>x. fst x = off) (computations st)"
proof (cases "cache st (edgeinfo_offset de)")
  case None
  from find_or_compute_miss [OF None assms(1)] assms(2) show ?thesis by auto
next
  case (Some e')
  with assms show ?thesis by (simp add: find_or_compute_hit)
qed

lemma edge_loop_length:
  "edge_loop env shp des st = Inr (des', st') \<Longrightarrow> length des' = length des"
  by (induction des arbitrary: st des' st') (auto split: sum.splits prod.splits)

lemma edge_loop_mono:
  "edge_loop env shp des st = Inr (des', st') \<Longrightarrow> cache st off = Some e \<Longrightarrow> cache st' off = Some e"
proof (induction des arbitrary: st des' st')
  case Nil
  then show ?case by simp
next
  case (Cons de des)
  from Cons.prems(1) obtain found st1 des1 where
    s: "find_or_compute env shp de st = Inr (found, st1)" and
    l: "edge_loop env shp des st1 = Inr (des1, st')"
    by (auto split: sum.splits prod.splits)
  from find_or_compute_mono [OF s Cons.prems(2)] have "cache st1 off = Some e" .
  with Cons.IH [OF l] show ?case .
qed

text \<open>An offset already in the cache is left alone.\<close>
lemma edge_loop_cached:
  "edge_loop env shp des st = Inr (des', st') \<Longrightarrow> cache st off = Some e \<Longrightarrow>
     mean_elevations st' off = mean_elevations st off \<and>
     filter (\<lambda>x. fst x = off) (computations st') = filter (\<lambda>x. fst x = off) (computations st)"
proof (induction des arbitrary: st des' st')
  case Nil
  then show ?case by simp
next
  case (Cons de des)
  from Cons.prems(1) obtain found st1 des1 where
    s: "find_or_compute env shp de st = Inr (found, st1)" and
    l: "edge_loop env shp des st1 = Inr (des1, st')"
    by (auto split: sum.splits prod.splits)
  have c1: "cache st1 off = Some e" by (rule find_or_compute_mono [OF s Cons.prems(2)])
  have same: "mean_elevations st1 off = mean_elevations st off \<and>
     filter (\<lambda>x. fst x = off) (computations st1) = filter (\<lambda>x. fst x = off) (computations st)"
  proof (cases "edgeinfo_offset de = off")
    case True
    with Cons.prems(2) s show ?thesis by (simp add: find_or_compute_hit)
  next
    case False
    from find_or_compute_other [OF s False] show ?thesis by simp
  qed
  from Cons.IH [OF l c1] same show ?case by simp
qed

lemma edge_loop_absent:
  "edge_loop env shp des st = Inr (des', st') \<Longrightarrow> cache st off = None \<Longrightarrow>
   find (\<lambda>de. edgeinfo_offset de = off) des = None \<Longrightarrow>
     cache st' off = None \<and> mean_elevations st' off = mean_elevations st off \<and>
     filter (\<lambda>x. fst x = off) (computations st') = filter (\<lambda>x. fst x = off) (computations st)"
proof (induction des arbitrary: st des' st')
  case Nil
  then show ?case by simp
next
  case (Cons de des)
  from Cons.prems(1) obtain found st1 des1 where
    s: "find_or_compute env shp de st = Inr (found, st1)" and
    l: "edge_loop env shp des st1 = Inr (des1, st')"
    by (auto split: sum.splits prod.splits)
  from Cons.prems(3) have ne: "edgeinfo_offset de \<noteq> off"
    and rest: "find (\<lambda>de. edgeinfo_offset de = off) des = None"
    by (auto split: if_splits)
  from find_or_compute_other [OF s ne] Cons.prems(2)
  have o: "cache st1 off = None" "mean_elevations st1 off = mean_elevations st off"
    "filter (\<lambda>x. fst x = off) (computations st1) = filter (\<lambda>x. fst x = off) (computations st)"
    by simp_all
  from Cons.IH [OF l o(1) rest] o show ?case by simp
qed

text \<open>An offset not yet in the cache is computed at its first edge, once.\<close>
lemma edge_loop_first:
  "edge_loop env shp des st = Inr (des', st') \<Longrightarrow> cache st off = None \<Longrightarrow>
   find (\<lambda>de. edgeinfo_offset de = off) des = Some e0 \<Longrightarrow>
     \<exists>fg rg cs found mean_elev.
        compute_grades env (shp off) e0 = Inr (fg, rg, cs) \<and> make_entry fg rg = Inr found \<and>
        stored_mean env fg = Inr mean_elev \<and>
        cache st' off = Some found \<and> mean_elevations st' off = Some mean_elev \<and>
        filter (\<lambda>x. fst x = off) (computations st') =
          filter (\<lambda>x. fst x = off) (computations st) @ [(off, cs)]"
proof (induction des arbitrary: st des' st')
  case Nil
  then show ?case by simp
next
  case (Cons de des)
  from Cons.prems(1) obtain found st1 des1 where
    s: "find_or_compute env shp de st = Inr (found, st1)" and
    l: "edge_loop env shp des st1 = Inr (des1, st')"
    by (auto split: sum.splits prod.splits)
  show ?case
  proof (cases "edgeinfo_offset de = off")
    case True
    with Cons.prems(3) have e0: "e0 = de" by simp
    from True Cons.prems(2) have miss: "cache st (edgeinfo_offset de) = None" by simp
    from find_or_compute_miss [OF miss s] obtain fg rg cs mean_elev where
      c: "compute_grades env (shp (edgeinfo_offset de)) de = Inr (fg, rg, cs)" and
      m: "make_entry fg rg = Inr found" and
      sm: "stored_mean env fg = Inr mean_elev" and
      st1: "st1 = st\<lparr>cache := (cache st)(edgeinfo_offset de \<mapsto> found),
                    mean_elevations := (mean_elevations st)(edgeinfo_offset de \<mapsto> mean_elev),
                    computations := computations st @ [(edgeinfo_offset de, cs)]\<rparr>"
      by blast
    from st1 True have c1: "cache st1 off = Some found" by simp
    from edge_loop_mono [OF l c1] edge_loop_cached [OF l c1] st1 True c m sm e0
    show ?thesis by auto
  next
    case False
    with Cons.prems(3) have rest: "find (\<lambda>de. edgeinfo_offset de = off) des = Some e0" by simp
    from find_or_compute_other [OF s False] Cons.prems(2)
    have o: "cache st1 off = None"
      "filter (\<lambda>x. fst x = off) (computations st1) = filter (\<lambda>x. fst x = off) (computations st)"
      by simp_all
    from Cons.IH [OF l o(1) rest] o show ?thesis by simp
  qed
qed

text \<open>Every edge is written from the entry that the final cache holds for its offset.\<close>
lemma edge_loop_written:
  "edge_loop env shp des st = Inr (des', st') \<Longrightarrow> k < length des \<Longrightarrow>
     \<exists>found. cache st' (edgeinfo_offset (des ! k)) = Some found \<and>
             des' ! k = apply_entry (des ! k) found"
proof (induction des arbitrary: st des' st' k)
  case Nil
  then show ?case by simp
next
  case (Cons de des)
  from Cons.prems(1) obtain found st1 des1 where
    s: "find_or_compute env shp de st = Inr (found, st1)" and
    l: "edge_loop env shp des st1 = Inr (des1, st')" and
    d: "des' = apply_entry de found # des1"
    by (auto split: sum.splits prod.splits)
  show ?case
  proof (cases k)
    case 0
    from edge_loop_mono [OF l find_or_compute_found [OF s]] 0 d show ?thesis by simp
  next
    case (Suc j)
    with Cons.prems(2) have "j < length des" by simp
    from Cons.IH [OF l this] Suc d show ?thesis by simp
  qed
qed

section \<open>Properties of one tile\<close>

lemma round_to_format_zero: "round_to_format p emin 0 = 0"
  by (simp add: round_to_format_def)

lemma float_of_double_zero: "float_of_double 0 = Inr 0"
  by (simp add: float_of_double_def float_max_def round_float_def round_to_format_zero)

lemma scaled_grade_zero: "scaled_grade 0 = 6.5"
  by (simp add: scaled_grade_def round_double_def round_to_format_def binary_exponent_def
      pow2_def round_half_even_def Let_def)

lemma grade_bucket_zero: "grade_bucket 0 = Inr 6"
  by (simp add: grade_bucket_def scaled_grade_zero uint32_of_double_def truncate_toward_zero_def)

lemma make_entry_flat: "make_entry (0, 0, 0, m) (0, 0, 0, m') = Inr flat_entry"
  by (simp add: make_entry_def grade_bucket_zero float_of_double_zero flat_entry_def
      get0_def get1_def get2_def)

lemma stored_mean_zero:
  "stored_mean env (0, 0, 0, 0) =
     Inr (if get_no_data_value env = 0 then kNoElevationData env else 0)"
  by (auto simp: stored_mean_def float_of_double_zero get3_def)

lemma compute_grades_tunnel_ferry:
  "tunnel de \<or> use de = kFerry \<Longrightarrow>
     compute_grades env shape de = Inr ((0, 0, 0, 0), (0, 0, 0, 0), [])"
  by (auto simp: compute_grades_def)

text \<open>A computation queries the height service once, or not at all for a tunnel or ferry.\<close>

lemma compute_grades_queries:
  assumes "compute_grades env shape de = Inr (fg, rg, cs)"
  shows "length (filter is_height_query cs) = (if tunnel de \<or> use de = kFerry then 0 else 1)"
proof (cases "tunnel de \<or> use de = kFerry")
  case True
  from assms compute_grades_tunnel_ferry [OF True, of env shape] show ?thesis
    using True by simp
next
  case False
  from assms False obtain pts interval cs0 where
    s: "sample_points env shape de = Inr (pts, interval, cs0)"
    by (auto simp: compute_grades_def split: sum.splits)
  then have "filter is_height_query cs0 = []"
    by (auto simp: sample_points_def split: if_splits list.splits)
  with assms False s show ?thesis
    by (auto simp: compute_grades_def Let_def split: if_splits)
qed

lemma single_tile_first:
  assumes run: "add_elevations_to_single_tile env r c t = Inr (r', c', t', tr)"
    and first: "find (\<lambda>de. edgeinfo_offset de = off) (directededges t) = Some e0"
  shows "\<exists>fg rg cs found mean_elev.
           compute_grades env (shapes t off) e0 = Inr (fg, rg, cs) \<and>
           make_entry fg rg = Inr found \<and>
           stored_mean env fg = Inr mean_elev \<and>
           c' off = Some found \<and>
           mean_elevation t' off = Some mean_elev \<and>
           filter (\<lambda>x. fst x = off) tr = [(off, cs)]"
proof -
  let ?st = "\<lparr>cache = cache_clear c, mean_elevations = mean_elevation t, computations = []\<rparr>"
  from run obtain des st where
    l: "edge_loop env (shapes t) (directededges t) ?st = Inr (des, st)" and
    r: "c' = cache st" "t' = t\<lparr>has_elevation := True, directededges := des,
                               mean_elevation := mean_elevations st\<rparr>" "tr = computations st"
    by (auto simp: add_elevations_to_single_tile_def split: sum.splits prod.splits)
  have "cache ?st off = None" by (simp add: cache_clear_def)
  from edge_loop_first [OF l this first] r show ?thesis by simp
qed

lemma single_tile_written:
  assumes run: "add_elevations_to_single_tile env r c t = Inr (r', c', t', tr)"
    and k: "k < length (directededges t)"
  shows "\<exists>found. c' (edgeinfo_offset (directededges t ! k)) = Some found \<and>
           directededges t' ! k = apply_entry (directededges t ! k) found"
proof -
  let ?st = "\<lparr>cache = cache_clear c, mean_elevations = mean_elevation t, computations = []\<rparr>"
  from run obtain des st where
    l: "edge_loop env (shapes t) (directededges t) ?st = Inr (des, st)" and
    r: "c' = cache st" "t' = t\<lparr>has_elevation := True, directededges := des,
                               mean_elevation := mean_elevations st\<rparr>"
    by (auto simp: add_elevations_to_single_tile_def split: sum.splits prod.splits)
  from edge_loop_written [OF l] k r show ?thesis by simp
qed

lemma find_first_index:
  assumes "i < length des" and "edgeinfo_offset (des ! i) = off"
    and "\<forall>j<i. edgeinfo_offset (des ! j) \<noteq> off"
  shows "find (\<lambda>de. edgeinfo_offset de = off) des = Some (des ! i)"
  using assms by (auto simp: find_Some_iff)

lemma find_first_exists:
  assumes "k < length des"
  shows "\<exists>e0. find (\<lambda>de. edgeinfo_offset de = edgeinfo_offset (des ! k)) des = Some e0"
proof (cases "find (\<lambda>de. edgeinfo_offset de = edgeinfo_offset (des ! k)) des")
  case None
  with assms show ?thesis by (auto simp: find_None_iff dest: nth_mem)
next
  case (Some e0)
  then show ?thesis by simp
qed

lemma apply_entry_fields:
  "(weighted_grade_field (apply_entry de found), max_up_slope (apply_entry de found),
    max_down_slope (apply_entry de found)) =
   (if forward de
    then (forward_grade found, forward_max_up found, forward_max_down found)
    else (reverse_grade found, reverse_max_up found, reverse_max_down found))"
  by (simp add: apply_entry_def)

lemma uint32_of_double_floor:
  assumes "0 \<le> x" and "x < 2 ^ 32"
  shows "\<exists>b. uint32_of_double x = Inr b \<and> uint b = \<lfloor>x\<rfloor>"
proof -
  from assms(1) have lo: "0 \<le> \<lfloor>x\<rfloor>" by simp
  from assms(2) have "\<lfloor>x\<rfloor> < 2 ^ 32" by (simp add: floor_less_iff)
  with lo have "uint (word_of_int \<lfloor>x\<rfloor> :: uint32_t) = \<lfloor>x\<rfloor>"
    by (simp add: uint_word_of_int take_bit_int_eq_self)
  with assms show ?thesis
    by (simp add: uint32_of_double_def truncate_toward_zero_def)
qed

lemma uint32_of_double_fraction:
  assumes "- 1 < x" and "x < 0"
  shows "uint32_of_double x = Inr 0"
proof -
  from assms have "\<lfloor>- x\<rfloor> = 0" by (simp add: floor_eq_iff)
  with assms show ?thesis
    by (simp add: uint32_of_double_def truncate_toward_zero_def)
qed

lemma make_entry_reverse:
  "make_entry fg rg = Inr found \<Longrightarrow>
     grade_bucket (get0 rg) = Inr (reverse_grade found) \<and>
     float_of_double (get1 rg) = Inr (reverse_max_up found) \<and>
     float_of_double (get2 rg) = Inr (reverse_max_down found)"
  by (auto simp: make_entry_def split: sum.splits)

text \<open>The buckets and the narrowings that the sample instance needs.\<close>

lemma example_buckets:
  "grade_bucket 6 = Inr 10" "grade_bucket (- 3) = Inr 4"
  by (simp_all add: grade_bucket_def scaled_grade_def round_double_def round_to_format_def
      binary_exponent_def pow2_def round_half_even_def Let_def uint32_of_double_def
      truncate_toward_zero_def)

lemma example_floats:
  "float_of_double 6 = Inr 6" "float_of_double (- 6) = Inr (- 6)" "float_of_double 13 = Inr 13"
  by (simp_all add: float_of_double_def float_max_def round_float_def round_to_format_def
      binary_exponent_def pow2_def round_half_even_def Let_def)

text \<open>The sample tile with a forward and a backward record at offset 7, run.\<close>

lemma example_tile_run:
  "add_elevations_to_single_tile example_env () c
       (example_tile [example_edge, example_edge\<lparr>forward := False\<rparr>]) =
     Inr ((),
          [7 \<mapsto> \<lparr>forward_grade = 10, reverse_grade = 4, forward_max_up = 6,
                   forward_max_down = 0, reverse_max_up = 0, reverse_max_down = - 6\<rparr>],
          (example_tile
             [example_edge\<lparr>weighted_grade_field := 10, max_up_slope := 6, max_down_slope := 0\<rparr>,
              example_edge\<lparr>forward := False, weighted_grade_field := 4, max_up_slope := 0,
                            max_down_slope := - 6\<rparr>])
            \<lparr>has_elevation := True, mean_elevation := [7 \<mapsto> 13]\<rparr>,
          [(7, [GetAll [(0, 10), (0, 16)], WeightedGrade [10, 16] 100,
                WeightedGrade [16, 10] 100])])"
  by (simp add: example_env_def example_edge_def example_tile_def example_heights_def
      example_weighted_grade_def add_elevations_to_single_tile_def find_or_compute_def
      compute_grades_def sample_points_def make_entry_def example_buckets example_floats
      float_of_double_zero stored_mean_def cache_insert_def cache_clear_def apply_entry_def
      get0_def get1_def get2_def get3_def POSTING_INTERVAL_def kMinimumInterval_def)

section \<open>Properties of the workers\<close>

lemma held_update:
  assumes "w < length ws"
  shows "mset (concat (map holding (ws[w := x]))) + mset (holding (ws ! w)) =
         mset (concat (map holding ws)) + mset (holding x)"
proof -
  have a: "ws = take w ws @ ws ! w # drop (Suc w) ws"
    using assms by (rule id_take_nth_drop)
  have b: "ws[w := x] = take w ws @ x # drop (Suc w) ws"
    using assms by (rule upd_conv_take_nth_drop)
  have "mset (concat (map holding ws)) =
        mset (concat (map holding (take w ws))) + mset (holding (ws ! w)) +
        mset (concat (map holding (drop (Suc w) ws)))"
    by (subst a) simp
  moreover have "mset (concat (map holding (ws[w := x]))) =
        mset (concat (map holding (take w ws))) + mset (holding x) +
        mset (concat (map holding (drop (Suc w) ws)))"
    by (subst b) simp
  ultimately show ?thesis by simp
qed

lemma finished_after_update:
  assumes "list_ex (\<lambda>wk. status_of wk = Finished) (ws[w := x])" and "status_of x \<noteq> Finished"
  shows "list_ex (\<lambda>wk. status_of wk = Finished) ws"
proof -
  from assms(1) obtain y where y: "y \<in> set (ws[w := x])" "status_of y = Finished"
    by (auto simp: list_ex_iff)
  from y(1) have "y = x \<or> y \<in> set ws"
    using set_update_subset_insert [of ws w x] by auto
  with y(2) assms(2) show ?thesis by (auto simp: list_ex_iff)
qed

lemma pool_invariantI:
  assumes "map snd (popped p) @ tilequeue p = tile_ids"
    and "mset (map snd (processed p)) + mset (held_tile_ids p) = mset (map snd (popped p))"
    and "list_ex (\<lambda>wk. status_of wk = Finished) (workers p) \<Longrightarrow> tilequeue p = []"
  shows "pool_invariant tile_ids p"
  using assms unfolding pool_invariant_def by blast

lemma worker_step_invariant:
  assumes step: "worker_step env w p = Inr p'" and inv: "pool_invariant tile_ids p"
  shows "pool_invariant tile_ids p' \<and> length (workers p') = length (workers p)"
proof (cases "length (workers p) \<le> w")
  case True
  with step inv show ?thesis by (simp add: worker_step_def)
next
  case False
  then have w: "w < length (workers p)" by simp
  let ?me = "workers p ! w"
  from inv have a: "map snd (popped p) @ tilequeue p = tile_ids"
    and b: "mset (map snd (processed p)) + mset (held_tile_ids p) = mset (map snd (popped p))"
    and c: "list_ex (\<lambda>wk. status_of wk = Finished) (workers p) \<Longrightarrow> tilequeue p = []"
    unfolding pool_invariant_def by blast+
  show ?thesis
  proof (cases "status_of ?me")
    case Finished
    with step inv False show ?thesis by (simp add: worker_step_def Let_def)
  next
    case AtLoopHead
    then have h: "holding ?me = []" by (simp add: holding_def)
    show ?thesis
    proof (cases "tilequeue p")
      case Nil
      with step False AtLoopHead
      have p': "p' = p\<lparr>workers := (workers p)[w := ?me\<lparr>status_of := Finished\<rparr>]\<rparr>"
        by (simp add: worker_step_def Let_def)
      have same: "popped p' = popped p" "processed p' = processed p" "tilequeue p' = []"
        "length (workers p') = length (workers p)"
        by (simp_all add: p' Nil)
      from held_update [OF w, of "?me\<lparr>status_of := Finished\<rparr>"] h
      have m: "mset (held_tile_ids p') = mset (held_tile_ids p)"
        by (simp add: p' held_tile_ids_def holding_def)
      have "pool_invariant tile_ids p'"
      proof (rule pool_invariantI)
        show "map snd (popped p') @ tilequeue p' = tile_ids"
          using a Nil by (simp add: same)
        show "mset (map snd (processed p')) + mset (held_tile_ids p') = mset (map snd (popped p'))"
          using b by (simp add: same m)
        show "tilequeue p' = []" by (rule same(3))
      qed
      with same(4) show ?thesis by simp
    next
      case (Cons tile_id rest)
      with step False AtLoopHead
      have p': "p' = p\<lparr>tilequeue := rest,
                       workers := (workers p)[w := ?me\<lparr>status_of := Holding tile_id\<rparr>],
                       popped := popped p @ [(w, tile_id)]\<rparr>"
        by (simp add: worker_step_def Let_def)
      have same: "popped p' = popped p @ [(w, tile_id)]" "processed p' = processed p"
        "tilequeue p' = rest" "length (workers p') = length (workers p)"
        "workers p' = (workers p)[w := ?me\<lparr>status_of := Holding tile_id\<rparr>]"
        by (simp_all add: p')
      from held_update [OF w, of "?me\<lparr>status_of := Holding tile_id\<rparr>"] h
      have m: "mset (held_tile_ids p') = mset (held_tile_ids p) + {#tile_id#}"
        by (simp add: p' held_tile_ids_def holding_def)
      have "pool_invariant tile_ids p'"
      proof (rule pool_invariantI)
        show "map snd (popped p') @ tilequeue p' = tile_ids"
          using a Cons by (simp add: same)
        have "mset (map snd (processed p')) + mset (held_tile_ids p') =
              (mset (map snd (processed p)) + mset (held_tile_ids p)) + {#tile_id#}"
          by (simp add: same(2) m)
        also have "\<dots> = mset (map snd (popped p'))"
          using b by (simp add: same(1))
        finally show "mset (map snd (processed p')) + mset (held_tile_ids p') =
                      mset (map snd (popped p'))" .
        assume "list_ex (\<lambda>wk. status_of wk = Finished) (workers p')"
        then have "list_ex (\<lambda>wk. status_of wk = Finished) (workers p)"
          unfolding same(5) by (rule finished_after_update) simp
        from c [OF this] Cons show "tilequeue p' = []" by simp
      qed
      with same(4) show ?thesis by simp
    qed
  next
    case (Holding tile_id)
    then have h: "holding ?me = [tile_id]" by (simp add: holding_def)
    from step False Holding obtain r c' t tr where
      p': "p' = p\<lparr>store := (store p)(tile_id := t),
                   workers := (workers p)
                     [w := \<lparr>graphreader_of = r, geo_attribute_cache = c', status_of = AtLoopHead\<rparr>],
                   processed := processed p @ [(w, tile_id)]\<rparr>"
      by (auto simp: worker_step_def Let_def split: sum.splits)
    let ?new = "\<lparr>graphreader_of = r, geo_attribute_cache = c', status_of = AtLoopHead\<rparr>"
    have same: "popped p' = popped p" "processed p' = processed p @ [(w, tile_id)]"
      "tilequeue p' = tilequeue p" "length (workers p') = length (workers p)"
      "workers p' = (workers p)[w := ?new]"
      by (simp_all add: p')
    from held_update [OF w, of ?new] h
    have m: "mset (held_tile_ids p') + {#tile_id#} = mset (held_tile_ids p)"
      by (simp add: p' held_tile_ids_def holding_def)
    have "pool_invariant tile_ids p'"
    proof (rule pool_invariantI)
      show "map snd (popped p') @ tilequeue p' = tile_ids"
        using a by (simp add: same)
      have "mset (map snd (processed p')) + mset (held_tile_ids p') =
            mset (map snd (processed p)) + (mset (held_tile_ids p') + {#tile_id#})"
        by (simp add: same(2))
      also have "\<dots> = mset (map snd (popped p'))"
        using b [folded m] by (simp add: same(1))
      finally show "mset (map snd (processed p')) + mset (held_tile_ids p') =
                    mset (map snd (popped p'))" .
      assume "list_ex (\<lambda>wk. status_of wk = Finished) (workers p')"
      then have "list_ex (\<lambda>wk. status_of wk = Finished) (workers p)"
        unfolding same(5) by (rule finished_after_update) simp
      from c [OF this] show "tilequeue p' = []" by (simp add: same)
    qed
    with same(4) show ?thesis by simp
  qed
qed

lemma run_workers_invariant:
  "run_workers env schedule p = Inr p' \<Longrightarrow> pool_invariant tile_ids p \<Longrightarrow>
     pool_invariant tile_ids p' \<and> length (workers p') = length (workers p)"
proof (induction schedule arbitrary: p)
  case Nil
  then show ?case by simp
next
  case (Cons w ws)
  from Cons.prems(1) obtain p1 where
    s: "worker_step env w p = Inr p1" and r: "run_workers env ws p1 = Inr p'"
    by (auto split: sum.splits)
  from worker_step_invariant [OF s Cons.prems(2)] Cons.IH [OF r] show ?case by simp
qed

lemma start_workers_invariant:
  "pool_invariant tile_ids (start_workers new_reader nthreads tile_ids tiles)"
  by (simp add: pool_invariant_def start_workers_def held_tile_ids_def holding_def list_ex_iff)

lemma all_finished_holds_nothing:
  "all_finished p \<Longrightarrow> held_tile_ids p = []"
  by (auto simp: all_finished_def held_tile_ids_def holding_def list_all_iff)

text \<open>
  What holds after any interleaving from the start: the pops in their order followed by
  the queue are the initial list, every popped identifier is processed or held, and when
  all workers have left the loop everything is popped and processed.
\<close>

lemma pool_safety:
  assumes n: "1 \<le> nthreads"
    and run: "run_workers env schedule (start_workers new_reader nthreads tile_ids tiles) = Inr p"
  shows "map snd (popped p) @ tilequeue p = tile_ids \<and>
         mset (map snd (processed p)) + mset (held_tile_ids p) = mset (map snd (popped p)) \<and>
         (all_finished p \<longrightarrow>
            tilequeue p = [] \<and> map snd (popped p) = tile_ids \<and>
            mset (map snd (processed p)) = mset tile_ids)"
proof -
  from run_workers_invariant [OF run start_workers_invariant]
  have inv: "pool_invariant tile_ids p" and len: "length (workers p) = nthreads"
    by (simp_all add: start_workers_def)
  from inv have a: "map snd (popped p) @ tilequeue p = tile_ids"
    and b: "mset (map snd (processed p)) + mset (held_tile_ids p) = mset (map snd (popped p))"
    unfolding pool_invariant_def by blast+
  have "tilequeue p = [] \<and> map snd (popped p) = tile_ids \<and>
        mset (map snd (processed p)) = mset tile_ids" if fin: "all_finished p"
  proof -
    from n len obtain wk where "wk \<in> set (workers p)"
      by (cases "workers p") auto
    with fin have "list_ex (\<lambda>wk. status_of wk = Finished) (workers p)"
      by (auto simp: all_finished_def list_all_iff list_ex_iff)
    with inv have q: "tilequeue p = []" by (simp add: pool_invariant_def)
    from b all_finished_holds_nothing [OF fin]
    have "mset (map snd (processed p)) = mset (map snd (popped p))"
      by simp
    with a q show ?thesis by simp
  qed
  with a b show ?thesis by blast
qed

text \<open>Progress: from any state every worker can leave the loop, unless a tile fails.\<close>

lemma run_workers_append:
  "run_workers env (a @ b) p =
     (case run_workers env a p of Inl e \<Rightarrow> Inl e | Inr p' \<Rightarrow> run_workers env b p')"
  by (induction a arbitrary: p) (auto split: sum.splits)

lemma steps_needed_bound: "steps_needed p w \<le> 2 * length (tilequeue p) + 2"
  by (simp add: steps_needed_def split: status.splits)

lemma steps_needed_zero: "steps_needed p w = 0 \<longleftrightarrow> status_of (workers p ! w) = Finished"
  by (simp add: steps_needed_def split: status.splits)

text \<open>A step of a worker fails in the tile, or takes the worker one step nearer to the end.\<close>
lemma worker_step_progress:
  assumes w: "w < length (workers p)"
  shows "(\<exists>e. worker_step env w p = Inl e) \<or>
         (\<exists>p1. worker_step env w p = Inr p1 \<and>
               length (workers p1) = length (workers p) \<and>
               length (tilequeue p1) \<le> length (tilequeue p) \<and>
               (\<forall>v. v \<noteq> w \<longrightarrow> workers p1 ! v = workers p ! v) \<and>
               steps_needed p1 w = steps_needed p w - 1)"
proof (cases "status_of (workers p ! w)")
  case Finished
  with w show ?thesis by (simp add: worker_step_def steps_needed_def)
next
  case AtLoopHead
  with w show ?thesis
    by (cases "tilequeue p") (simp_all add: worker_step_def steps_needed_def)
next
  case (Holding tile_id)
  show ?thesis
  proof (cases "add_elevations_to_single_tile env (graphreader_of (workers p ! w))
                  (geo_attribute_cache (workers p ! w)) (store p tile_id)")
    case (Inl e)
    with w Holding show ?thesis by (simp add: worker_step_def)
  next
    case (Inr res)
    with w Holding show ?thesis
      by (cases res) (simp add: worker_step_def steps_needed_def)
  qed
qed

lemma worker_runs_to_finish:
  assumes "w < length (workers p)" and "steps_needed p w \<le> n"
  shows "(\<exists>e. run_workers env (replicate n w) p = Inl e) \<or>
         (\<exists>p'. run_workers env (replicate n w) p = Inr p' \<and>
               status_of (workers p' ! w) = Finished \<and>
               length (workers p') = length (workers p) \<and>
               length (tilequeue p') \<le> length (tilequeue p) \<and>
               (\<forall>v. v \<noteq> w \<longrightarrow> workers p' ! v = workers p ! v))"
  using assms
proof (induction n arbitrary: p)
  case 0
  then show ?case by (simp add: steps_needed_zero)
next
  case (Suc n)
  from worker_step_progress [OF Suc.prems(1), of env]
  show ?case
  proof
    assume "\<exists>e. worker_step env w p = Inl e"
    then show ?thesis by auto
  next
    assume "\<exists>p1. worker_step env w p = Inr p1 \<and>
               length (workers p1) = length (workers p) \<and>
               length (tilequeue p1) \<le> length (tilequeue p) \<and>
               (\<forall>v. v \<noteq> w \<longrightarrow> workers p1 ! v = workers p ! v) \<and>
               steps_needed p1 w = steps_needed p w - 1"
    then obtain p1 where s: "worker_step env w p = Inr p1"
      and l: "length (workers p1) = length (workers p)"
      and q: "length (tilequeue p1) \<le> length (tilequeue p)"
      and o: "\<forall>v. v \<noteq> w \<longrightarrow> workers p1 ! v = workers p ! v"
      and d: "steps_needed p1 w = steps_needed p w - 1"
      by blast
    from Suc.prems l have w1: "w < length (workers p1)" by simp
    from d Suc.prems(2) have n1: "steps_needed p1 w \<le> n" by simp
    from Suc.IH [OF w1 n1] s l q o show ?thesis
      by (auto simp: le_trans)
  qed
qed

lemma workers_run_to_finish:
  assumes "\<forall>w\<in>set ws. w < length (workers p)" and "2 * length (tilequeue p) + 2 \<le> n"
  shows "(\<exists>e. run_workers env (concat (map (replicate n) ws)) p = Inl e) \<or>
         (\<exists>p'. run_workers env (concat (map (replicate n) ws)) p = Inr p' \<and>
               length (workers p') = length (workers p) \<and>
               length (tilequeue p') \<le> length (tilequeue p) \<and>
               (\<forall>w\<in>set ws. status_of (workers p' ! w) = Finished) \<and>
               (\<forall>v. v \<notin> set ws \<longrightarrow> workers p' ! v = workers p ! v))"
  using assms
proof (induction ws arbitrary: p)
  case Nil
  then show ?case by simp
next
  case (Cons w ws)
  from Cons.prems have w: "w < length (workers p)" by simp
  from steps_needed_bound [of p w] Cons.prems(2) have sn: "steps_needed p w \<le> n" by simp
  from worker_runs_to_finish [OF w sn, of env]
  show ?case
  proof
    assume "\<exists>e. run_workers env (replicate n w) p = Inl e"
    then show ?thesis by (auto simp: run_workers_append)
  next
    assume "\<exists>p'. run_workers env (replicate n w) p = Inr p' \<and>
               status_of (workers p' ! w) = Finished \<and>
               length (workers p') = length (workers p) \<and>
               length (tilequeue p') \<le> length (tilequeue p) \<and>
               (\<forall>v. v \<noteq> w \<longrightarrow> workers p' ! v = workers p ! v)"
    then obtain p1 where r1: "run_workers env (replicate n w) p = Inr p1"
      and f1: "status_of (workers p1 ! w) = Finished"
      and l1: "length (workers p1) = length (workers p)"
      and q1: "length (tilequeue p1) \<le> length (tilequeue p)"
      and o1: "\<forall>v. v \<noteq> w \<longrightarrow> workers p1 ! v = workers p ! v"
      by blast
    from Cons.prems(1) l1 have ws1: "\<forall>w\<in>set ws. w < length (workers p1)" by simp
    from q1 Cons.prems(2) have n1: "2 * length (tilequeue p1) + 2 \<le> n" by simp
    from Cons.IH [OF ws1 n1]
    show ?thesis
    proof
      assume "\<exists>e. run_workers env (concat (map (replicate n) ws)) p1 = Inl e"
      with r1 show ?thesis by (auto simp: run_workers_append)
    next
      assume "\<exists>p'. run_workers env (concat (map (replicate n) ws)) p1 = Inr p' \<and>
               length (workers p') = length (workers p1) \<and>
               length (tilequeue p') \<le> length (tilequeue p1) \<and>
               (\<forall>w\<in>set ws. status_of (workers p' ! w) = Finished) \<and>
               (\<forall>v. v \<notin> set ws \<longrightarrow> workers p' ! v = workers p1 ! v)"
      then obtain p' where r2: "run_workers env (concat (map (replicate n) ws)) p1 = Inr p'"
        and l2: "length (workers p') = length (workers p1)"
        and q2: "length (tilequeue p') \<le> length (tilequeue p1)"
        and f2: "\<forall>w\<in>set ws. status_of (workers p' ! w) = Finished"
        and o2: "\<forall>v. v \<notin> set ws \<longrightarrow> workers p' ! v = workers p1 ! v"
        by blast
      have fw: "status_of (workers p' ! w) = Finished"
      proof (cases "w \<in> set ws")
        case True
        with f2 show ?thesis by simp
      next
        case False
        with o2 f1 show ?thesis by simp
      qed
      have "run_workers env (concat (map (replicate n) (w # ws))) p = Inr p'"
        using r1 r2 by (simp add: run_workers_append)
      moreover have "\<forall>v. v \<notin> set (w # ws) \<longrightarrow> workers p' ! v = workers p ! v"
        using o1 o2 by simp
      ultimately show ?thesis
        using l1 l2 q1 q2 f2 fw by auto
    qed
  qed
qed

lemma finishing_schedule_finishes:
  "(\<exists>e. run_workers env (finishing_schedule p) p = Inl e) \<or>
   (\<exists>p'. run_workers env (finishing_schedule p) p = Inr p' \<and> all_finished p')"
proof -
  have a: "\<forall>w\<in>set [0..<length (workers p)]. w < length (workers p)" by simp
  from workers_run_to_finish [OF a order_refl, of env]
  show ?thesis
  proof
    assume "\<exists>e. run_workers env
          (concat (map (replicate (2 * length (tilequeue p) + 2)) [0..<length (workers p)])) p = Inl e"
    then show ?thesis by (simp add: finishing_schedule_def)
  next
    assume "\<exists>p'. run_workers env
          (concat (map (replicate (2 * length (tilequeue p) + 2)) [0..<length (workers p)])) p = Inr p' \<and>
        length (workers p') = length (workers p) \<and>
        length (tilequeue p') \<le> length (tilequeue p) \<and>
        (\<forall>w\<in>set [0..<length (workers p)]. status_of (workers p' ! w) = Finished) \<and>
        (\<forall>v. v \<notin> set [0..<length (workers p)] \<longrightarrow> workers p' ! v = workers p ! v)"
    then obtain p' where r: "run_workers env (finishing_schedule p) p = Inr p'"
      and l: "length (workers p') = length (workers p)"
      and f: "\<forall>w\<in>set [0..<length (workers p)]. status_of (workers p' ! w) = Finished"
      by (auto simp: finishing_schedule_def)
    from l f have "all_finished p'"
      by (simp add: all_finished_def list_all_length)
    with r show ?thesis by blast
  qed
qed

text \<open>The remaining work bounds the steps of every interleaving.\<close>

lemma work_update:
  assumes "w < length ws"
  shows "sum_list (map worker_work (ws[w := x])) + worker_work (ws ! w) =
         sum_list (map worker_work ws) + worker_work x"
proof -
  have a: "ws = take w ws @ ws ! w # drop (Suc w) ws"
    using assms by (rule id_take_nth_drop)
  have b: "ws[w := x] = take w ws @ x # drop (Suc w) ws"
    using assms by (rule upd_conv_take_nth_drop)
  have "sum_list (map worker_work ws) =
        sum_list (map worker_work (take w ws)) + worker_work (ws ! w) +
        sum_list (map worker_work (drop (Suc w) ws))"
    by (subst a) simp
  moreover have "sum_list (map worker_work (ws[w := x])) =
        sum_list (map worker_work (take w ws)) + worker_work x +
        sum_list (map worker_work (drop (Suc w) ws))"
    by (subst b) simp
  ultimately show ?thesis by simp
qed

text \<open>A step of a worker that has not left its loop takes one unit of the remaining work.\<close>
lemma worker_step_work:
  assumes s: "worker_step env w p = Inr p1"
  shows "if w < length (workers p) \<and> status_of (workers p ! w) \<noteq> Finished
         then Suc (remaining_work p1) = remaining_work p else p1 = p"
proof (cases "w < length (workers p)")
  case False
  with s show ?thesis by (simp add: worker_step_def)
next
  case w: True
  let ?me = "workers p ! w"
  show ?thesis
  proof (cases "status_of ?me")
    case Finished
    with s w show ?thesis by (simp add: worker_step_def)
  next
    case AtLoopHead
    then have h: "worker_work ?me = 1" by (simp add: worker_work_def)
    show ?thesis
    proof (cases "tilequeue p")
      case Nil
      with s w AtLoopHead
      have p1: "p1 = p\<lparr>workers := (workers p)[w := ?me\<lparr>status_of := Finished\<rparr>]\<rparr>"
        by (simp add: worker_step_def Let_def)
      from work_update [OF w, of "?me\<lparr>status_of := Finished\<rparr>"] h
      have "Suc (sum_list (map worker_work (workers p1))) = sum_list (map worker_work (workers p))"
        by (simp add: p1 worker_work_def)
      then have "Suc (remaining_work p1) = remaining_work p"
        by (simp add: remaining_work_def p1)
      with w AtLoopHead show ?thesis by simp
    next
      case (Cons tile_id rest)
      with s w AtLoopHead
      have p1: "p1 = p\<lparr>tilequeue := rest,
                       workers := (workers p)[w := ?me\<lparr>status_of := Holding tile_id\<rparr>],
                       popped := popped p @ [(w, tile_id)]\<rparr>"
        by (simp add: worker_step_def Let_def)
      from work_update [OF w, of "?me\<lparr>status_of := Holding tile_id\<rparr>"] h
      have "sum_list (map worker_work (workers p1)) = Suc (sum_list (map worker_work (workers p)))"
        by (simp add: p1 worker_work_def)
      then have "Suc (remaining_work p1) = remaining_work p"
        by (simp add: remaining_work_def p1 Cons)
      with w AtLoopHead show ?thesis by simp
    qed
  next
    case (Holding tile_id)
    then have h: "worker_work ?me = 2" by (simp add: worker_work_def)
    from s w Holding obtain r c' t tr where
      p1: "p1 = p\<lparr>store := (store p)(tile_id := t),
                   workers := (workers p)
                     [w := \<lparr>graphreader_of = r, geo_attribute_cache = c', status_of = AtLoopHead\<rparr>],
                   processed := processed p @ [(w, tile_id)]\<rparr>"
      by (auto simp: worker_step_def Let_def split: sum.splits)
    let ?new = "\<lparr>graphreader_of = r, geo_attribute_cache = c', status_of = AtLoopHead\<rparr>"
    from work_update [OF w, of ?new] h
    have "Suc (sum_list (map worker_work (workers p1))) = sum_list (map worker_work (workers p))"
      by (simp add: p1 worker_work_def)
    then have "Suc (remaining_work p1) = remaining_work p"
      by (simp add: remaining_work_def p1)
    with w Holding show ?thesis by simp
  qed
qed

lemma run_workers_work:
  "run_workers env schedule p = Inr p' \<Longrightarrow> remaining_work p' \<le> remaining_work p"
proof (induction schedule arbitrary: p)
  case Nil
  then show ?case by simp
next
  case (Cons w ws)
  from Cons.prems obtain p1 where
    s: "worker_step env w p = Inr p1" and r: "run_workers env ws p1 = Inr p'"
    by (auto split: sum.splits)
  from worker_step_work [OF s] have "remaining_work p1 \<le> remaining_work p"
    by (auto split: if_splits)
  with Cons.IH [OF r] show ?case by simp
qed

lemma remaining_work_start:
  "remaining_work (start_workers new_reader nthreads tile_ids tiles) =
     2 * length tile_ids + nthreads"
  by (simp add: remaining_work_def start_workers_def worker_work_def sum_list_replicate)

lemma no_work_all_finished: "remaining_work p = 0 \<Longrightarrow> all_finished p"
proof -
  assume "remaining_work p = 0"
  then have "\<forall>wk\<in>set (workers p). worker_work wk = 0"
    by (simp add: remaining_work_def)
  then have "\<forall>wk\<in>set (workers p). status_of wk = Finished"
  proof (intro ballI)
    fix wk
    assume a: "\<forall>wk\<in>set (workers p). worker_work wk = 0" and b: "wk \<in> set (workers p)"
    then have "worker_work wk = 0" by simp
    then show "status_of wk = Finished"
      by (cases "status_of wk") (simp_all add: worker_work_def)
  qed
  then show ?thesis by (simp add: all_finished_def list_all_iff)
qed

lemma all_finished_no_work:
  "all_finished p \<Longrightarrow> tilequeue p = [] \<Longrightarrow> remaining_work p = 0"
  by (auto simp: all_finished_def list_all_iff remaining_work_def worker_work_def)

section \<open>The claims\<close>

subsection \<open>C1: tunnels and ferries\<close>

text \<open>
  Claim C1, as the code has it. Take a record of a tile whose offset is first met on a
  tunnel or ferry record \<open>e0\<close> (the record itself, or the one that shares its offset and
  comes first). Then the computation for that offset makes no call to the height service
  or to the grade algorithm, the cache entry is the flat entry (bucket 6 forward and
  reverse, the four slopes zero), the record is written with bucket 6 and zero slopes, and
  the value handed to \<^verbatim>\<open>set_mean_elevation\<close> for the offset is 0, the mean of the
  zero tuple; the sentinel \<open>kNoElevationData\<close> is stored only if the service's no-data
  value is itself 0.
\<close>

theorem tunnel_or_ferry_edge_is_flat:
  assumes run: "add_elevations_to_single_tile env r c t = Inr (r', c', t', tr)"
    and k: "k < length (directededges t)"
    and off: "off = edgeinfo_offset (directededges t ! k)"
    and first: "find (\<lambda>de. edgeinfo_offset de = off) (directededges t) = Some e0"
    and tf: "tunnel e0 \<or> use e0 = kFerry"
  shows "filter (\<lambda>x. fst x = off) tr = [(off, [])] \<and>
         c' off = Some flat_entry \<and>
         weighted_grade_field (directededges t' ! k) = 6 \<and>
         max_up_slope (directededges t' ! k) = 0 \<and>
         max_down_slope (directededges t' ! k) = 0 \<and>
         mean_elevation t' off =
           Some (if get_no_data_value env = 0 then kNoElevationData env else 0)"
proof -
  from single_tile_first [OF run first] obtain fg rg cs found mean_elev where
    c: "compute_grades env (shapes t off) e0 = Inr (fg, rg, cs)" and
    m: "make_entry fg rg = Inr found" and
    sm: "stored_mean env fg = Inr mean_elev" and
    f: "c' off = Some found" "mean_elevation t' off = Some mean_elev"
       "filter (\<lambda>x. fst x = off) tr = [(off, cs)]"
    by blast
  from c compute_grades_tunnel_ferry [OF tf, of env "shapes t off"]
  have z: "fg = (0, 0, 0, 0)" "rg = (0, 0, 0, 0)" "cs = []" by auto
  with m have found: "found = flat_entry" by (simp add: make_entry_flat)
  from single_tile_written [OF run k] off f(1) found
  have w: "directededges t' ! k = apply_entry (directededges t ! k) flat_entry" by auto
  from sm z have s: "mean_elev = (if get_no_data_value env = 0 then kNoElevationData env else 0)"
    by (simp add: stored_mean_zero)
  from f z found w s show ?thesis
    by (simp add: apply_entry_def flat_entry_def)
qed

text \<open>
  The claim as written says that the stored mean elevation is the no-data sentinel. On a
  tile with one tunnel edge at offset 7, with no-data value \<open>- 32768\<close> and sentinel
  \<open>32768\<close>, the stored mean elevation is 0.
\<close>

theorem tunnel_mean_elevation_counterexample:
  "tunnel (example_edge\<lparr>tunnel := True\<rparr>) \<and>
   add_elevations_to_single_tile example_env () Map.empty
       (example_tile [example_edge\<lparr>tunnel := True\<rparr>]) =
     Inr ((), [7 \<mapsto> flat_entry],
          (example_tile [example_edge\<lparr>tunnel := True, weighted_grade_field := 6\<rparr>])
            \<lparr>has_elevation := True, mean_elevation := [7 \<mapsto> 0]\<rparr>,
          [(7, [])]) \<and>
   (0 :: float) \<noteq> kNoElevationData example_env"
  by (simp add: example_env_def example_edge_def example_tile_def flat_entry_def
      add_elevations_to_single_tile_def find_or_compute_def compute_grades_def make_entry_def
      grade_bucket_zero float_of_double_zero stored_mean_def cache_insert_def cache_clear_def
      apply_entry_def get0_def get1_def get2_def get3_def)

text \<open>The theorem at a ferry edge and its twin, both at offset 7, for the twin.\<close>

theorem tunnel_or_ferry_edge_is_flat_witness:
  "add_elevations_to_single_tile example_env () Map.empty
       (example_tile [example_edge\<lparr>use := kFerry\<rparr>,
                      example_edge\<lparr>use := kFerry, forward := False\<rparr>]) =
     Inr ((), [7 \<mapsto> flat_entry],
          (example_tile [example_edge\<lparr>use := kFerry, weighted_grade_field := 6\<rparr>,
                         example_edge\<lparr>use := kFerry, forward := False,
                                       weighted_grade_field := 6\<rparr>])
            \<lparr>has_elevation := True, mean_elevation := [7 \<mapsto> 0]\<rparr>,
          [(7, [])]) \<and>
   find (\<lambda>de. edgeinfo_offset de = 7)
        [example_edge\<lparr>use := kFerry\<rparr>, example_edge\<lparr>use := kFerry, forward := False\<rparr>] =
     Some (example_edge\<lparr>use := kFerry\<rparr>) \<and>
   use (example_edge\<lparr>use := kFerry\<rparr>) = kFerry"
proof -
  let ?t = "example_tile [example_edge\<lparr>use := kFerry\<rparr>,
                          example_edge\<lparr>use := kFerry, forward := False\<rparr>]"
  let ?t' = "(example_tile [example_edge\<lparr>use := kFerry, weighted_grade_field := 6\<rparr>,
                         example_edge\<lparr>use := kFerry, forward := False,
                                       weighted_grade_field := 6\<rparr>])
            \<lparr>has_elevation := True, mean_elevation := [7 \<mapsto> 0]\<rparr>"
  have run: "add_elevations_to_single_tile example_env () Map.empty ?t =
               Inr ((), [7 \<mapsto> flat_entry], ?t', [(7, [])])"
    by (simp add: example_env_def example_edge_def example_tile_def flat_entry_def
      add_elevations_to_single_tile_def find_or_compute_def compute_grades_def make_entry_def
      grade_bucket_zero float_of_double_zero stored_mean_def cache_insert_def cache_clear_def
      apply_entry_def get0_def get1_def get2_def get3_def)
  have k: "1 < length (directededges ?t)" by (simp add: example_tile_def)
  have off: "7 = edgeinfo_offset (directededges ?t ! 1)"
    by (simp add: example_tile_def example_edge_def)
  have first: "find (\<lambda>de. edgeinfo_offset de = 7) (directededges ?t) =
                 Some (example_edge\<lparr>use := kFerry\<rparr>)"
    by (simp add: example_tile_def example_edge_def)
  have tf: "tunnel (example_edge\<lparr>use := kFerry\<rparr>) \<or> use (example_edge\<lparr>use := kFerry\<rparr>) = kFerry"
    by simp
  from tunnel_or_ferry_edge_is_flat [OF run k off first tf] run first
  show ?thesis by (simp add: example_tile_def)
qed

subsection \<open>C2: one computation per offset\<close>

text \<open>
  Claim C2. If the records \<open>i < j\<close> of a tile share the offset \<open>off\<close>, the run of
  the tile computes the attributes of \<open>off\<close> exactly once: the log holds one
  computation for \<open>off\<close>, made on the first record \<open>e0\<close> of the tile with that offset
  (which is record \<open>i\<close> when no earlier record has the offset), and its calls are those
  of that one computation, among them at most one height query, and exactly one when
  \<open>e0\<close> is neither tunnel nor ferry. The cache holds the entry made there, and both records are
  written from it: bucket, max up slope and max down slope are the forward triple of the
  entry for a record whose forward flag is set and the reverse triple otherwise.
\<close>

theorem shared_offset_computed_once:
  assumes run: "add_elevations_to_single_tile env r c t = Inr (r', c', t', tr)"
    and ij: "i < j" "j < length (directededges t)"
    and same: "edgeinfo_offset (directededges t ! i) = off"
              "edgeinfo_offset (directededges t ! j) = off"
  shows "\<exists>e0 fg rg cs found.
           find (\<lambda>de. edgeinfo_offset de = off) (directededges t) = Some e0 \<and>
           ((\<forall>n<i. edgeinfo_offset (directededges t ! n) \<noteq> off) \<longrightarrow> e0 = directededges t ! i) \<and>
           compute_grades env (shapes t off) e0 = Inr (fg, rg, cs) \<and>
           make_entry fg rg = Inr found \<and>
           filter (\<lambda>x. fst x = off) tr = [(off, cs)] \<and>
           length (filter is_height_query cs) \<le> 1 \<and>
           (\<not> tunnel e0 \<and> use e0 \<noteq> kFerry \<longrightarrow> length (filter is_height_query cs) = 1) \<and>
           c' off = Some found \<and>
           (weighted_grade_field (directededges t' ! i), max_up_slope (directededges t' ! i),
            max_down_slope (directededges t' ! i)) =
             (if forward (directededges t ! i)
              then (forward_grade found, forward_max_up found, forward_max_down found)
              else (reverse_grade found, reverse_max_up found, reverse_max_down found)) \<and>
           (weighted_grade_field (directededges t' ! j), max_up_slope (directededges t' ! j),
            max_down_slope (directededges t' ! j)) =
             (if forward (directededges t ! j)
              then (forward_grade found, forward_max_up found, forward_max_down found)
              else (reverse_grade found, reverse_max_up found, reverse_max_down found))"
proof -
  from ij have i: "i < length (directededges t)" by simp
  from find_first_exists [OF i] same(1) obtain e0 where
    first: "find (\<lambda>de. edgeinfo_offset de = off) (directededges t) = Some e0"
    by auto
  have e0: "(\<forall>n<i. edgeinfo_offset (directededges t ! n) \<noteq> off) \<longrightarrow> e0 = directededges t ! i"
    using find_first_index [OF i same(1)] first by auto
  from single_tile_first [OF run first] obtain fg rg cs found mean_elev where
    c: "compute_grades env (shapes t off) e0 = Inr (fg, rg, cs)"
       "make_entry fg rg = Inr found" "c' off = Some found"
       "filter (\<lambda>x. fst x = off) tr = [(off, cs)]"
    by blast
  from single_tile_written [OF run i] same(1) c(3)
  have wi: "directededges t' ! i = apply_entry (directededges t ! i) found" by auto
  from single_tile_written [OF run ij(2)] same(2) c(3)
  have wj: "directededges t' ! j = apply_entry (directededges t ! j) found" by auto
  from compute_grades_queries [OF c(1)]
  have q: "length (filter is_height_query cs) \<le> 1"
    "\<not> tunnel e0 \<and> use e0 \<noteq> kFerry \<longrightarrow> length (filter is_height_query cs) = 1"
    by (simp_all split: if_splits)
  from first e0 c q show ?thesis
    by (simp only: wi wj apply_entry_fields) blast
qed

text \<open>
  The theorem on the tile with a forward and a backward record of 100 metres at offset 7:
  one height query, forward bucket 10 and reverse bucket 4.
\<close>

theorem shared_offset_computed_once_witness:
  "add_elevations_to_single_tile example_env () Map.empty
       (example_tile [example_edge, example_edge\<lparr>forward := False\<rparr>]) =
     Inr ((),
          [7 \<mapsto> \<lparr>forward_grade = 10, reverse_grade = 4, forward_max_up = 6,
                   forward_max_down = 0, reverse_max_up = 0, reverse_max_down = - 6\<rparr>],
          (example_tile
             [example_edge\<lparr>weighted_grade_field := 10, max_up_slope := 6, max_down_slope := 0\<rparr>,
              example_edge\<lparr>forward := False, weighted_grade_field := 4, max_up_slope := 0,
                            max_down_slope := - 6\<rparr>])
            \<lparr>has_elevation := True, mean_elevation := [7 \<mapsto> 13]\<rparr>,
          [(7, [GetAll [(0, 10), (0, 16)], WeightedGrade [10, 16] 100,
                WeightedGrade [16, 10] 100])]) \<and>
   edgeinfo_offset example_edge = 7 \<and>
   edgeinfo_offset (example_edge\<lparr>forward := False\<rparr>) = 7 \<and>
   find (\<lambda>de. edgeinfo_offset de = 7) [example_edge, example_edge\<lparr>forward := False\<rparr>] =
     Some example_edge"
proof -
  let ?t = "example_tile [example_edge, example_edge\<lparr>forward := False\<rparr>]"
  note run = example_tile_run [of Map.empty]
  have ij: "(0 :: nat) < 1" "1 < length (directededges ?t)"
    by (simp_all add: example_tile_def)
  have same: "edgeinfo_offset (directededges ?t ! 0) = 7" "edgeinfo_offset (directededges ?t ! 1) = 7"
    by (simp_all add: example_tile_def example_edge_def)
  from shared_offset_computed_once [OF run ij same] run same show ?thesis
    by (auto simp: example_tile_def)
qed

subsection \<open>C3: the grade bucket\<close>

text \<open>
  Claim C3, as the code has it. The bucket of a weighted grade \<open>g\<close> is the value of the
  \<^verbatim>\<open>double\<close> expression \<^verbatim>\<open>g * .6 + 6.5\<close>, product and sum each rounded to the nearest
  \<^verbatim>\<open>double\<close>, converted to \<^verbatim>\<open>uint32_t\<close>, which truncates toward zero. Where that
  value lies between \<open>- 1\<close> and \<open>2 ^ 32\<close> the conversion is defined; the bucket is the
  floor of the value when the value is not negative, and 0 when it is negative. Grade 0
  has bucket 6, grade 15 bucket 15, grade \<open>- 10\<close> bucket 0, and nothing is clamped: grade
  20 has bucket 18.
\<close>

theorem grade_bucket_truncates:
  assumes "- 1 < scaled_grade g" and "scaled_grade g < 2 ^ 32"
  shows "(\<exists>b. grade_bucket g = Inr b \<and>
              uint b = truncate_toward_zero (scaled_grade g) \<and>
              (0 \<le> scaled_grade g \<longrightarrow> uint b = \<lfloor>scaled_grade g\<rfloor>) \<and>
              (scaled_grade g < 0 \<longrightarrow> b = 0)) \<and>
         grade_bucket 0 = Inr 6 \<and> grade_bucket 15 = Inr 15 \<and> grade_bucket (- 10) = Inr 0 \<and>
         grade_bucket 20 = Inr 18"
proof -
  have lit: "grade_bucket 0 = Inr 6 \<and> grade_bucket 15 = Inr 15 \<and>
             grade_bucket (- 10) = Inr 0 \<and> grade_bucket 20 = Inr 18"
    by (simp add: grade_bucket_def scaled_grade_def round_double_def round_to_format_def
        binary_exponent_def pow2_def round_half_even_def Let_def uint32_of_double_def
        truncate_toward_zero_def)
  show ?thesis
  proof (cases "0 \<le> scaled_grade g")
    case True
    from uint32_of_double_floor [OF True assms(2)] True lit show ?thesis
      by (auto simp: grade_bucket_def truncate_toward_zero_def)
  next
    case False
    then have neg: "scaled_grade g < 0" by simp
    with assms(1) have "\<lfloor>- scaled_grade g\<rfloor> = 0" by (simp add: floor_eq_iff)
    with neg have "truncate_toward_zero (scaled_grade g) = 0"
      by (simp add: truncate_toward_zero_def)
    with uint32_of_double_fraction [OF assms(1) neg] neg lit show ?thesis
      by (auto simp: grade_bucket_def)
  qed
qed

text \<open>
  The claim as written says the floor of \<open>g * 0.6 + 6.5\<close> for every grade. At grade
  \<open>- 11\<close> the expression is about \<open>- 0.1\<close>, its floor is \<open>- 1\<close>, exact or rounded, and
  the bucket is 0. At the \<^verbatim>\<open>double\<close> next below \<open>5 / 6\<close> the exact value of
  \<open>g * 0.6 + 6.5\<close> is below 7 and has floor 6, while the rounded sum is 7 and so is
  the bucket.
\<close>

theorem grade_bucket_floor_counterexample:
  "grade_bucket (- 11) = Inr 0 \<and>
   \<lfloor>(- 11 :: real) * 0.6 + 6.5\<rfloor> = - 1 \<and> \<lfloor>scaled_grade (- 11)\<rfloor> = - 1 \<and>
   grade_bucket (- 11) \<noteq> Inr (word_of_int \<lfloor>(- 11 :: real) * 0.6 + 6.5\<rfloor>) \<and>
   round_double (7505999378950826 / 2 ^ 53) = 7505999378950826 / 2 ^ 53 \<and>
   grade_bucket (7505999378950826 / 2 ^ 53) = Inr 7 \<and>
   \<lfloor>(7505999378950826 / 2 ^ 53 :: real) * 0.6 + 6.5\<rfloor> = 6"
  by (simp add: grade_bucket_def scaled_grade_def round_double_def round_to_format_def
      binary_exponent_def pow2_def round_half_even_def Let_def uint32_of_double_def
      truncate_toward_zero_def)

text \<open>The theorem at grade \<open>- 11\<close>, where the value is negative, and at grade 5.\<close>

theorem grade_bucket_truncates_witness:
  "- 1 < scaled_grade (- 11) \<and> scaled_grade (- 11) < 2 ^ 32 \<and>
   grade_bucket (- 11) = Inr 0 \<and>
   scaled_grade 5 = 9.5 \<and> grade_bucket 5 = Inr 9"
proof -
  have a: "- 1 < scaled_grade (- 11)" "scaled_grade (- 11) < 2 ^ 32" "scaled_grade (- 11) < 0"
    by (simp_all add: scaled_grade_def round_double_def round_to_format_def
        binary_exponent_def pow2_def round_half_even_def Let_def)
  have v: "scaled_grade 5 = 9.5"
    by (simp add: scaled_grade_def round_double_def round_to_format_def
        binary_exponent_def pow2_def round_half_even_def Let_def)
  then have b: "- 1 < scaled_grade 5" "scaled_grade 5 < 2 ^ 32" by simp_all
  from grade_bucket_truncates [OF a(1,2)] a(3) have "grade_bucket (- 11) = Inr 0" by auto
  moreover from grade_bucket_truncates [OF b] v obtain w where
    "grade_bucket 5 = Inr w" "uint w = \<lfloor>(9.5 :: real)\<rfloor>" by auto
  then have "grade_bucket 5 = Inr 9"
    by (simp add: word_uint_eq_iff)
  ultimately show ?thesis using a v by simp
qed

subsection \<open>C4: edges shorter than 10 metres\<close>

text \<open>
  Claim C4, as the code has it. Take a record of a tile whose offset is first met on a
  record \<open>e0\<close> that is neither tunnel nor ferry and is shorter than 10 metres (the record
  itself, or the one that shares its offset and comes first). Then the shape has a first
  and a last point, the cache entry is the flat entry (bucket 6 in both directions, the
  four slopes zero), the record is written with bucket 6 and zero slopes, and the mean
  elevation stored for the offset is \<open>f\<close>, the mean \<open>m\<close> that the grade algorithm returns
  for the heights of the two end points with the edge length as interval, narrowed to
  \<^verbatim>\<open>float\<close>, unless \<open>f\<close> is the service's no-data value, in which case the sentinel is
  stored.
\<close>

theorem short_edge_keeps_mean:
  assumes run: "add_elevations_to_single_tile env r c t = Inr (r', c', t', tr)"
    and k: "k < length (directededges t)"
    and off: "off = edgeinfo_offset (directededges t ! k)"
    and first: "find (\<lambda>de. edgeinfo_offset de = off) (directededges t) = Some e0"
    and nt: "\<not> tunnel e0" and nf: "use e0 \<noteq> kFerry"
    and short: "length_m e0 < 10"
  shows "\<exists>p ps m f.
           shapes t off = p # ps \<and>
           m = get3 (weighted_grade env (get_all env [p, last (p # ps)]) (real (length_m e0))) \<and>
           float_of_double m = Inr f \<and>
           filter (\<lambda>x. fst x = off) tr =
             [(off, [GetAll [p, last (p # ps)],
                     WeightedGrade (get_all env [p, last (p # ps)]) (real (length_m e0))])] \<and>
           c' off = Some flat_entry \<and>
           weighted_grade_field (directededges t' ! k) = 6 \<and>
           max_up_slope (directededges t' ! k) = 0 \<and>
           max_down_slope (directededges t' ! k) = 0 \<and>
           mean_elevation t' off =
             Some (if f = get_no_data_value env then kNoElevationData env else f)"
proof -
  from single_tile_first [OF run first] obtain fg rg cs found mean_elev where
    c: "compute_grades env (shapes t off) e0 = Inr (fg, rg, cs)" and
    m: "make_entry fg rg = Inr found" and
    sm: "stored_mean env fg = Inr mean_elev" and
    f: "c' off = Some found" "mean_elevation t' off = Some mean_elev"
       "filter (\<lambda>x. fst x = off) tr = [(off, cs)]"
    by blast
  from short have s180: "real (length_m e0) < POSTING_INTERVAL * 3"
    and s10: "real (length_m e0) < kMinimumInterval"
    by (simp_all add: POSTING_INTERVAL_def kMinimumInterval_def)
  from c nt nf s180 obtain p ps where shape: "shapes t off = p # ps"
    by (cases "shapes t off") (auto simp: compute_grades_def sample_points_def)
  let ?pts = "[p, last (p # ps)]"
  let ?m = "get3 (weighted_grade env (get_all env ?pts) (real (length_m e0)))"
  from c nt nf s180 s10 shape have z: "fg = (0, 0, 0, ?m)" "rg = (0, 0, 0, ?m)"
    "cs = [GetAll ?pts, WeightedGrade (get_all env ?pts) (real (length_m e0))]"
    by (auto simp: compute_grades_def sample_points_def Let_def)
  with m have found: "found = flat_entry" by (simp add: make_entry_flat)
  from single_tile_written [OF run k] off f(1) found
  have w: "directededges t' ! k = apply_entry (directededges t ! k) flat_entry" by auto
  from sm z(1) obtain fl where fl: "float_of_double ?m = Inr fl"
    and me: "mean_elev = (if fl = get_no_data_value env then kNoElevationData env else fl)"
    by (auto simp: stored_mean_def get3_def split: sum.splits)
  from f z found w shape fl me show ?thesis
    by (simp add: apply_entry_def flat_entry_def)
qed

text \<open>
  The claim as written speaks of every record that is neither tunnel nor ferry and is
  shorter than 10 metres. On a tile where such a record of 5 metres comes second and
  shares offset 7 with a record of 100 metres, the cache entry is that of the first record
  and the short record is written with bucket 4 and max down slope \<open>- 6\<close>.
\<close>

theorem short_edge_cached_counterexample:
  "\<not> tunnel (example_edge\<lparr>length_m := 5, forward := False\<rparr>) \<and>
   use (example_edge\<lparr>length_m := 5, forward := False\<rparr>) \<noteq> kFerry \<and>
   length_m (example_edge\<lparr>length_m := 5, forward := False\<rparr>) < 10 \<and>
   add_elevations_to_single_tile example_env () Map.empty
       (example_tile [example_edge, example_edge\<lparr>length_m := 5, forward := False\<rparr>]) =
     Inr ((),
          [7 \<mapsto> \<lparr>forward_grade = 10, reverse_grade = 4, forward_max_up = 6,
                   forward_max_down = 0, reverse_max_up = 0, reverse_max_down = - 6\<rparr>],
          (example_tile
             [example_edge\<lparr>weighted_grade_field := 10, max_up_slope := 6, max_down_slope := 0\<rparr>,
              example_edge\<lparr>length_m := 5, forward := False, weighted_grade_field := 4,
                            max_up_slope := 0, max_down_slope := - 6\<rparr>])
            \<lparr>has_elevation := True, mean_elevation := [7 \<mapsto> 13]\<rparr>,
          [(7, [GetAll [(0, 10), (0, 16)], WeightedGrade [10, 16] 100,
                WeightedGrade [16, 10] 100])]) \<and>
   (4 :: uint32_t) \<noteq> 6 \<and> (- 6 :: float) \<noteq> 0"
  by (simp add: example_env_def example_edge_def example_tile_def example_heights_def
      example_weighted_grade_def add_elevations_to_single_tile_def find_or_compute_def
      compute_grades_def sample_points_def make_entry_def example_buckets example_floats
      float_of_double_zero stored_mean_def cache_insert_def cache_clear_def apply_entry_def
      get0_def get1_def get2_def get3_def POSTING_INTERVAL_def kMinimumInterval_def)

text \<open>The theorem on a tile with two records of 5 metres at offset 7: the mean is 13.\<close>

theorem short_edge_keeps_mean_witness:
  "add_elevations_to_single_tile example_env () Map.empty
       (example_tile [example_edge\<lparr>length_m := 5\<rparr>,
                      example_edge\<lparr>length_m := 5, forward := False\<rparr>]) =
     Inr ((), [7 \<mapsto> flat_entry],
          (example_tile [example_edge\<lparr>length_m := 5, weighted_grade_field := 6\<rparr>,
                         example_edge\<lparr>length_m := 5, forward := False,
                                       weighted_grade_field := 6\<rparr>])
            \<lparr>has_elevation := True, mean_elevation := [7 \<mapsto> 13]\<rparr>,
          [(7, [GetAll [(0, 10), (0, 16)], WeightedGrade [10, 16] 5])]) \<and>
   find (\<lambda>de. edgeinfo_offset de = 7)
        [example_edge\<lparr>length_m := 5\<rparr>, example_edge\<lparr>length_m := 5, forward := False\<rparr>] =
     Some (example_edge\<lparr>length_m := 5\<rparr>) \<and>
   \<not> tunnel (example_edge\<lparr>length_m := 5\<rparr>) \<and>
   use (example_edge\<lparr>length_m := 5\<rparr>) \<noteq> kFerry \<and>
   length_m (example_edge\<lparr>length_m := 5\<rparr>) < 10 \<and>
   get3 (weighted_grade example_env (get_all example_env [(0, 10), (0, 16)]) 5) = 13 \<and>
   float_of_double 13 = Inr 13"
proof -
  let ?e = "example_edge\<lparr>length_m := 5\<rparr>"
  let ?t = "example_tile [?e, example_edge\<lparr>length_m := 5, forward := False\<rparr>]"
  let ?t' = "(example_tile [example_edge\<lparr>length_m := 5, weighted_grade_field := 6\<rparr>,
                         example_edge\<lparr>length_m := 5, forward := False,
                                       weighted_grade_field := 6\<rparr>])
            \<lparr>has_elevation := True, mean_elevation := [7 \<mapsto> 13]\<rparr>"
  have run: "add_elevations_to_single_tile example_env () Map.empty ?t =
               Inr ((), [7 \<mapsto> flat_entry], ?t',
                    [(7, [GetAll [(0, 10), (0, 16)], WeightedGrade [10, 16] 5])])"
    by (simp add: example_env_def example_edge_def example_tile_def example_heights_def
        example_weighted_grade_def flat_entry_def add_elevations_to_single_tile_def
        find_or_compute_def compute_grades_def sample_points_def make_entry_def
        grade_bucket_zero example_floats float_of_double_zero stored_mean_def cache_insert_def
        cache_clear_def apply_entry_def get0_def get1_def get2_def get3_def
        POSTING_INTERVAL_def kMinimumInterval_def)
  have k: "0 < length (directededges ?t)" by (simp add: example_tile_def)
  have off: "7 = edgeinfo_offset (directededges ?t ! 0)"
    by (simp add: example_tile_def example_edge_def)
  have first: "find (\<lambda>de. edgeinfo_offset de = 7) (directededges ?t) = Some ?e"
    by (simp add: example_tile_def example_edge_def)
  have e: "\<not> tunnel ?e" "use ?e \<noteq> kFerry" "length_m ?e < 10"
    by (simp_all add: example_edge_def)
  have m: "get3 (weighted_grade example_env (get_all example_env [(0, 10), (0, 16)]) 5) = 13"
    by (simp add: example_env_def example_heights_def example_weighted_grade_def get3_def)
  from short_edge_keeps_mean [OF run k off first e] run first e m example_floats(3)
  show ?thesis
    by (simp add: example_tile_def)
qed

subsection \<open>C5: the reverse direction\<close>

text \<open>
  Claim C5. For an edge that is neither tunnel nor ferry and is at least 10 metres long,
  with the sampled points and the interval as chosen, the forward tuple is the grade
  algorithm on the heights of the points and the reverse tuple is the same algorithm, with
  the same interval, on those heights in reverse order. The entry takes its reverse bucket
  from the reverse tuple's grade and its reverse slopes from the reverse tuple, narrowed to
  \<^verbatim>\<open>float\<close>. No negation of the forward result is involved: the example below has
  forward grade 6 and reverse grade \<open>- 3\<close>.
\<close>

theorem reverse_grades_from_reversed_heights:
  assumes "\<not> tunnel de" and "use de \<noteq> kFerry" and "10 \<le> length_m de"
    and "sample_points env shape de = Inr (resampled, interval, cs)"
  shows "compute_grades env shape de =
           Inr (weighted_grade env (get_all env resampled) interval,
                weighted_grade env (rev (get_all env resampled)) interval,
                cs @ [GetAll resampled, WeightedGrade (get_all env resampled) interval,
                      WeightedGrade (rev (get_all env resampled)) interval]) \<and>
         (\<forall>found. make_entry (weighted_grade env (get_all env resampled) interval)
                     (weighted_grade env (rev (get_all env resampled)) interval) = Inr found \<longrightarrow>
            grade_bucket (get0 (weighted_grade env (rev (get_all env resampled)) interval)) =
              Inr (reverse_grade found) \<and>
            float_of_double (get1 (weighted_grade env (rev (get_all env resampled)) interval)) =
              Inr (reverse_max_up found) \<and>
            float_of_double (get2 (weighted_grade env (rev (get_all env resampled)) interval)) =
              Inr (reverse_max_down found))"
  using assms
  by (auto simp: compute_grades_def kMinimumInterval_def Let_def dest: make_entry_reverse)

text \<open>
  The theorem at the sample edge of 100 metres: forward \<open>(6, 6, 0, 13)\<close>, reverse
  \<open>(- 3, 0, - 6, 13)\<close>, and the reverse grade is not minus the forward grade.
\<close>

theorem reverse_grades_from_reversed_heights_witness:
  "\<not> tunnel example_edge \<and> use example_edge \<noteq> kFerry \<and> 10 \<le> length_m example_edge \<and>
   sample_points example_env [(0, 10), (0, 12), (0, 16)] example_edge =
     Inr ([(0, 10), (0, 16)], 100, []) \<and>
   compute_grades example_env [(0, 10), (0, 12), (0, 16)] example_edge =
     Inr ((6, 6, 0, 13), (- 3, 0, - 6, 13),
          [GetAll [(0, 10), (0, 16)], WeightedGrade [10, 16] 100, WeightedGrade [16, 10] 100]) \<and>
   get0 (- 3, 0, - 6, 13) \<noteq> - get0 (6, 6, 0, 13)"
proof -
  have e: "\<not> tunnel example_edge" "use example_edge \<noteq> kFerry" "10 \<le> length_m example_edge"
    by (simp_all add: example_edge_def)
  have s: "sample_points example_env [(0, 10), (0, 12), (0, 16)] example_edge =
             Inr ([(0, 10), (0, 16)], 100, [])"
    by (simp add: sample_points_def example_edge_def POSTING_INTERVAL_def)
  have v: "get_all example_env [(0, 10), (0, 16)] = [10, 16]"
    "weighted_grade example_env [10, 16] 100 = (6, 6, 0, 13)"
    "weighted_grade example_env [16, 10] 100 = (- 3, 0, - 6, 13)"
    by (simp_all add: example_env_def example_heights_def example_weighted_grade_def)
  from reverse_grades_from_reversed_heights [OF e s] e s show ?thesis
    by (simp add: v get0_def)
qed

subsection \<open>C6: the points sampled and the interval\<close>

text \<open>
  Claim C6. For an edge that is neither tunnel nor ferry: if it is shorter than 180 metres
  (three times the posting interval of 60) or is a bridge, the points sampled are the first
  and the last point of the shape and the interval is the edge length, and these are what
  the height service and the grade algorithm are called with; otherwise the shape is
  resampled with interval 60, the heights are queried at the resampled points and the
  grade algorithm is called with interval 60.
\<close>

theorem sampling_interval_choice:
  assumes "\<not> tunnel de" and "use de \<noteq> kFerry"
  shows "(length_m de < 180 \<or> bridge de \<longrightarrow>
           (\<forall>p ps. shape = p # ps \<longrightarrow>
              sample_points env shape de = Inr ([p, last (p # ps)], real (length_m de), []) \<and>
              (\<exists>fg rg rest.
                 compute_grades env shape de =
                   Inr (fg, rg,
                        GetAll [p, last (p # ps)] #
                        WeightedGrade (get_all env [p, last (p # ps)]) (real (length_m de)) #
                        rest)))) \<and>
         (\<not> (length_m de < 180 \<or> bridge de) \<longrightarrow>
            sample_points env shape de =
              Inr (resample_spherical_polyline env shape 60, 60, [Resample shape 60]) \<and>
            (\<exists>fg rg rest.
               compute_grades env shape de =
                 Inr (fg, rg,
                      Resample shape 60 #
                      GetAll (resample_spherical_polyline env shape 60) #
                      WeightedGrade (get_all env (resample_spherical_polyline env shape 60)) 60 #
                      rest)))"
  using assms
  by (simp add: compute_grades_def sample_points_def POSTING_INTERVAL_def Let_def
      del: split_paired_Ex)

text \<open>
  The theorem at an edge of 100 metres and at a bridge of 500 metres (two end points,
  interval the length), and at an edge of 500 metres that is no bridge (resampled, 60).
\<close>

theorem sampling_interval_choice_witness:
  "sample_points example_env [(0, 10), (0, 12), (0, 16)] example_edge =
     Inr ([(0, 10), (0, 16)], 100, []) \<and>
   sample_points example_env [(0, 10), (0, 12), (0, 16)]
       (example_edge\<lparr>length_m := 500, bridge := True\<rparr>) =
     Inr ([(0, 10), (0, 16)], 500, []) \<and>
   sample_points example_env [(0, 10), (0, 12), (0, 16)] (example_edge\<lparr>length_m := 500\<rparr>) =
     Inr ([(0, 10), (0, 12), (0, 16)], 60, [Resample [(0, 10), (0, 12), (0, 16)] 60]) \<and>
   compute_grades example_env [(0, 10), (0, 12), (0, 16)] (example_edge\<lparr>length_m := 500\<rparr>) =
     Inr ((10, 10, 0, 13), (- 5, 0, - 10, 13),
          [Resample [(0, 10), (0, 12), (0, 16)] 60, GetAll [(0, 10), (0, 12), (0, 16)],
           WeightedGrade [10, 12, 16] 60, WeightedGrade [16, 12, 10] 60])"
proof -
  let ?shape = "[(0, 10), (0, 12), (0, 16)] :: PointLL list"
  have a: "\<not> tunnel example_edge" "use example_edge \<noteq> kFerry"
    and b: "\<not> tunnel (example_edge\<lparr>length_m := 500, bridge := True\<rparr>)"
           "use (example_edge\<lparr>length_m := 500, bridge := True\<rparr>) \<noteq> kFerry"
    and c: "\<not> tunnel (example_edge\<lparr>length_m := 500\<rparr>)"
           "use (example_edge\<lparr>length_m := 500\<rparr>) \<noteq> kFerry"
    by (simp_all add: example_edge_def)
  have r: "resample_spherical_polyline example_env ?shape 60 = ?shape"
    by (simp add: example_env_def)
  have g: "compute_grades example_env ?shape (example_edge\<lparr>length_m := 500\<rparr>) =
     Inr ((10, 10, 0, 13), (- 5, 0, - 10, 13),
          [Resample ?shape 60, GetAll ?shape,
           WeightedGrade [10, 12, 16] 60, WeightedGrade [16, 12, 10] 60])"
    by (simp add: compute_grades_def sample_points_def example_edge_def example_env_def
        example_heights_def example_weighted_grade_def POSTING_INTERVAL_def kMinimumInterval_def)
  from sampling_interval_choice [OF a, of ?shape example_env]
    sampling_interval_choice [OF b, of ?shape example_env]
    sampling_interval_choice [OF c, of ?shape example_env] g
  show ?thesis
    by (simp add: example_edge_def r)
qed

subsection \<open>C7: the cache is cleared for every tile\<close>

text \<open>
  Claim C7. A worker hands the same cache to every tile it processes, and processing a
  tile begins by clearing it: whatever the cache holds on entry, the reader, the cache,
  the tile and the computations that come out are those of a run that starts from the
  empty cache. No entry of an earlier tile is read.
\<close>

theorem cache_cleared_before_each_tile:
  "add_elevations_to_single_tile env graphreader c t =
     add_elevations_to_single_tile env graphreader Map.empty t"
  by (simp add: add_elevations_to_single_tile_def cache_clear_def)

subsection \<open>C8: no elevation source\<close>

text \<open>
  Claim C8. If the configuration has no elevation path, or has one that does not exist,
  \<^verbatim>\<open>Build\<close> returns without error, and all it does is log the warning: the tiles, the
  number of threads started and everything else are as before, whatever the interleaving
  and the tile identifiers given.
\<close>

theorem build_without_elevation_source:
  assumes "additional_data_elevation pt = None \<or>
           (\<exists>path. additional_data_elevation pt = Some path \<and> \<not> filesystem_exists wd path)"
  shows "Build env new_reader schedule pt wd tile_ids =
           Inr (wd\<lparr>logged := logged wd @ [WARN_elevation_storage_missing]\<rparr>)"
  using assms by (auto simp: Build_def)

text \<open>The theorem without a path, and with a path that does not exist.\<close>

theorem build_without_elevation_source_witness:
  "additional_data_elevation \<lparr>additional_data_elevation = None, mjolnir_concurrency = Some 2\<rparr> = None \<and>
   Build example_env () [0, 1]
       \<lparr>additional_data_elevation = None, mjolnir_concurrency = Some 2\<rparr> example_world [3] =
     Inr (example_world\<lparr>logged := [WARN_elevation_storage_missing]\<rparr>) \<and>
   \<not> filesystem_exists example_world ''/nowhere'' \<and>
   Build example_env () [0, 1]
       \<lparr>additional_data_elevation = Some ''/nowhere'', mjolnir_concurrency = None\<rparr>
       example_world [] =
     Inr (example_world\<lparr>logged := [WARN_elevation_storage_missing]\<rparr>)"
proof -
  let ?pt1 = "\<lparr>additional_data_elevation = None, mjolnir_concurrency = Some 2\<rparr>"
  let ?pt2 = "\<lparr>additional_data_elevation = Some ''/nowhere'', mjolnir_concurrency = None\<rparr>"
  have h1: "additional_data_elevation ?pt1 = None \<or>
            (\<exists>path. additional_data_elevation ?pt1 = Some path \<and>
                    \<not> filesystem_exists example_world path)"
    by simp
  have n: "\<not> filesystem_exists example_world ''/nowhere''"
    by (simp add: example_world_def)
  then have h2: "additional_data_elevation ?pt2 = None \<or>
            (\<exists>path. additional_data_elevation ?pt2 = Some path \<and>
                    \<not> filesystem_exists example_world path)"
    by simp
  have l: "logged example_world = []" by (simp add: example_world_def)
  from build_without_elevation_source [OF h1, of example_env "()" "[0, 1]" "[3]"]
    build_without_elevation_source [OF h2, of example_env "()" "[0, 1]" "[]"] n
  show ?thesis by (simp add: l)
qed

subsection \<open>C9: draining the queue\<close>

text \<open>
  Claim C9. Start at least one worker on a list of tile identifiers and let the workers
  take steps in any order, with no tile failing so far. Then the identifiers popped, in
  the order of the pops, followed by the queue are the initial list: every pop took the
  front of the queue, and no identifier was popped twice. Every popped identifier has
  been processed once or is held by the worker that popped it. If every worker has left
  its loop, the queue is empty, the identifiers popped are the initial list and the tiles
  processed are the same identifiers with the same multiplicities. And that state is
  reached. The remaining work, two steps for every queued identifier and up to two for
  every worker, is at most twice the number of identifiers plus the number of workers; it
  is zero exactly when every worker has left its loop; every step of a worker that has
  not left its loop either fails in its tile or takes the remaining work down by one,
  and a step of any other index changes nothing. In particular, letting the workers go on
  one after the other either runs into a tile that fails or ends with every worker out of
  its loop, the queue empty and every identifier popped and processed.
\<close>

theorem queue_drained_exactly_once:
  assumes n: "1 \<le> nthreads"
    and run: "run_workers env schedule (start_workers new_reader nthreads tile_ids tiles) = Inr p"
  shows "map snd (popped p) @ tilequeue p = tile_ids \<and>
         mset (map snd (processed p)) + mset (held_tile_ids p) = mset (map snd (popped p)) \<and>
         (all_finished p \<longrightarrow>
            tilequeue p = [] \<and> map snd (popped p) = tile_ids \<and>
            mset (map snd (processed p)) = mset tile_ids) \<and>
         remaining_work p \<le> 2 * length tile_ids + nthreads \<and>
         (all_finished p \<longleftrightarrow> remaining_work p = 0) \<and>
         (\<forall>w p1. worker_step env w p = Inr p1 \<longrightarrow>
            (if w < nthreads \<and> status_of (workers p ! w) \<noteq> Finished
             then Suc (remaining_work p1) = remaining_work p else p1 = p)) \<and>
         ((\<exists>e. run_workers env (finishing_schedule p) p = Inl e) \<or>
          (\<exists>p'. run_workers env (finishing_schedule p) p = Inr p' \<and> all_finished p' \<and>
                tilequeue p' = [] \<and> map snd (popped p') = tile_ids \<and>
                mset (map snd (processed p')) = mset tile_ids))"
proof -
  note safe = pool_safety [OF n run]
  from run_workers_invariant [OF run start_workers_invariant]
  have len: "length (workers p) = nthreads"
    by (simp add: start_workers_def)
  from run_workers_work [OF run]
  have bound: "remaining_work p \<le> 2 * length tile_ids + nthreads"
    by (simp add: remaining_work_start)
  have zero: "all_finished p \<longleftrightarrow> remaining_work p = 0"
    using safe no_work_all_finished [of p] all_finished_no_work [of p] by blast
  have step: "\<forall>w p1. worker_step env w p = Inr p1 \<longrightarrow>
            (if w < nthreads \<and> status_of (workers p ! w) \<noteq> Finished
             then Suc (remaining_work p1) = remaining_work p else p1 = p)"
    using worker_step_work [of env _ p] len by simp
  from finishing_schedule_finishes [of env p]
  have "(\<exists>e. run_workers env (finishing_schedule p) p = Inl e) \<or>
        (\<exists>p'. run_workers env (finishing_schedule p) p = Inr p' \<and> all_finished p' \<and>
              tilequeue p' = [] \<and> map snd (popped p') = tile_ids \<and>
              mset (map snd (processed p')) = mset tile_ids)"
  proof
    assume "\<exists>e. run_workers env (finishing_schedule p) p = Inl e"
    then show ?thesis by blast
  next
    assume "\<exists>p'. run_workers env (finishing_schedule p) p = Inr p' \<and> all_finished p'"
    then obtain p' where r: "run_workers env (finishing_schedule p) p = Inr p'"
      and fin: "all_finished p'" by blast
    from run r
    have "run_workers env (schedule @ finishing_schedule p)
            (start_workers new_reader nthreads tile_ids tiles) = Inr p'"
      by (simp add: run_workers_append)
    from pool_safety [OF n this] fin r show ?thesis by blast
  qed
  with safe bound zero step show ?thesis by blast
qed

text \<open>
  The theorem for two workers and the identifiers 3 and 5. After worker 0 has popped 3
  and worker 1 has popped 5, neither tile is processed; the workers then go on one after
  the other, two steps each, and end with both tiles processed and the queue empty.
\<close>

theorem queue_drained_exactly_once_witness:
  "\<exists>p p'. run_workers example_env [0, 1]
            (start_workers () 2 [3, 5] (tiles_of example_world)) = Inr p \<and>
       tilequeue p = [] \<and> popped p = [(0, 3), (1, 5)] \<and> processed p = [] \<and>
       held_tile_ids p = [3, 5] \<and> \<not> all_finished p \<and>
       finishing_schedule p = [0, 0, 1, 1] \<and>
       run_workers example_env (finishing_schedule p) p = Inr p' \<and>
       all_finished p' \<and> tilequeue p' = [] \<and>
       popped p' = [(0, 3), (1, 5)] \<and> processed p' = [(0, 3), (1, 5)]"
proof -
  let ?p = "\<lparr>tilequeue = [], store = tiles_of example_world,
             workers = [\<lparr>graphreader_of = (), geo_attribute_cache = Map.empty,
                         status_of = Holding 3\<rparr>,
                        \<lparr>graphreader_of = (), geo_attribute_cache = Map.empty,
                         status_of = Holding 5\<rparr>],
             popped = [(0, 3), (1, 5)], processed = []\<rparr> :: unit pool"
  have two: "replicate 2 x = [x, x]" for x :: "'a"
    by (simp add: numeral_2_eq_2)
  have run: "run_workers example_env [0, 1]
          (start_workers () 2 [3, 5] (tiles_of example_world)) = Inr ?p"
    by (simp add: start_workers_def two worker_step_def)
  have vals: "held_tile_ids ?p = [3, 5]" "\<not> all_finished ?p"
    "finishing_schedule ?p = [0, 0, 1, 1]"
    by (simp_all add: held_tile_ids_def holding_def all_finished_def finishing_schedule_def
        two upt_rec)
  obtain p' where run': "run_workers example_env [0, 0, 1, 1] ?p = Inr p'"
    and vals': "all_finished p'" "tilequeue p' = []" "popped p' = [(0, 3), (1, 5)]"
      "processed p' = [(0, 3), (1, 5)]"
    by (simp add: worker_step_def example_world_def example_tile_run all_finished_def)
  have n: "1 \<le> (2 :: nat)" by simp
  from queue_drained_exactly_once [OF n run] run vals run' vals'
  have "run_workers example_env [0, 1]
            (start_workers () 2 [3, 5] (tiles_of example_world)) = Inr ?p \<and>
       tilequeue ?p = [] \<and> popped ?p = [(0, 3), (1, 5)] \<and> processed ?p = [] \<and>
       held_tile_ids ?p = [3, 5] \<and> \<not> all_finished ?p \<and>
       finishing_schedule ?p = [0, 0, 1, 1] \<and>
       run_workers example_env (finishing_schedule ?p) ?p = Inr p' \<and>
       all_finished p' \<and> tilequeue p' = [] \<and>
       popped p' = [(0, 3), (1, 5)] \<and> processed p' = [(0, 3), (1, 5)]"
    by simp
  then show ?thesis by blast
qed

subsection \<open>C10: tunnel and ferry come before the short-edge rule\<close>

text \<open>
  Claim C10, as the code has it. Take a tunnel or ferry record of a tile, of any length,
  also below 10 metres, whose offset no earlier record of the tile has. Its computation
  makes no call, whatever the shape and the length (no height query, no run of the grade
  algorithm), and both tuples are zero; the log holds that one computation for the offset,
  the flat entry is inserted, and the mean elevation stored for the offset is 0, the
  fourth component of the zero tuple, given that the service's no-data value is not 0.
\<close>

theorem tunnel_ferry_precedes_short_edge:
  assumes run: "add_elevations_to_single_tile env r c t = Inr (r', c', t', tr)"
    and k: "k < length (directededges t)"
    and off: "off = edgeinfo_offset (directededges t ! k)"
    and first: "\<forall>j<k. edgeinfo_offset (directededges t ! j) \<noteq> off"
    and tf: "tunnel (directededges t ! k) \<or> use (directededges t ! k) = kFerry"
    and nd: "get_no_data_value env \<noteq> 0"
  shows "compute_grades env shape (directededges t ! k) =
           Inr ((0, 0, 0, 0), (0, 0, 0, 0), []) \<and>
         filter (\<lambda>x. fst x = off) tr = [(off, [])] \<and>
         c' off = Some flat_entry \<and>
         weighted_grade_field (directededges t' ! k) = 6 \<and>
         max_up_slope (directededges t' ! k) = 0 \<and>
         max_down_slope (directededges t' ! k) = 0 \<and>
         mean_elevation t' off = Some 0"
proof -
  let ?de = "directededges t ! k"
  from off have o: "edgeinfo_offset ?de = off" by simp
  from find_first_index [OF k o first]
  have f0: "find (\<lambda>de. edgeinfo_offset de = off) (directededges t) = Some ?de" .
  from single_tile_first [OF run f0] obtain fg rg cs found mean_elev where
    c: "compute_grades env (shapes t off) ?de = Inr (fg, rg, cs)" and
    m: "make_entry fg rg = Inr found" and
    sm: "stored_mean env fg = Inr mean_elev" and
    f: "c' off = Some found" "mean_elevation t' off = Some mean_elev"
       "filter (\<lambda>x. fst x = off) tr = [(off, cs)]"
    by blast
  from c compute_grades_tunnel_ferry [OF tf, of env "shapes t off"]
  have z: "fg = (0, 0, 0, 0)" "rg = (0, 0, 0, 0)" "cs = []" by auto
  with m have found: "found = flat_entry" by (simp add: make_entry_flat)
  from single_tile_written [OF run k] o f(1) found
  have w: "directededges t' ! k = apply_entry ?de flat_entry" by auto
  from sm z nd have s: "mean_elev = 0" by (simp add: stored_mean_zero)
  from f z found w s compute_grades_tunnel_ferry [OF tf, of env shape] show ?thesis
    by (simp add: apply_entry_def flat_entry_def)
qed

text \<open>
  The claim as written speaks of every tunnel or ferry record. On a tile where a tunnel
  record of 5 metres comes second and shares offset 7 with a record of 5 metres that is
  no tunnel, the mean elevation stored for its offset is 13, computed from the heights of
  the end points, which the height service was asked for.
\<close>

theorem tunnel_after_plain_twin_counterexample:
  "tunnel (example_edge\<lparr>length_m := 5, tunnel := True, forward := False\<rparr>) \<and>
   add_elevations_to_single_tile example_env () Map.empty
       (example_tile [example_edge\<lparr>length_m := 5\<rparr>,
                      example_edge\<lparr>length_m := 5, tunnel := True, forward := False\<rparr>]) =
     Inr ((), [7 \<mapsto> flat_entry],
          (example_tile [example_edge\<lparr>length_m := 5, weighted_grade_field := 6\<rparr>,
                         example_edge\<lparr>length_m := 5, tunnel := True, forward := False,
                                       weighted_grade_field := 6\<rparr>])
            \<lparr>has_elevation := True, mean_elevation := [7 \<mapsto> 13]\<rparr>,
          [(7, [GetAll [(0, 10), (0, 16)], WeightedGrade [10, 16] 5])]) \<and>
   (13 :: float) \<noteq> 0"
  by (simp add: example_env_def example_edge_def example_tile_def example_heights_def
      example_weighted_grade_def flat_entry_def add_elevations_to_single_tile_def
      find_or_compute_def compute_grades_def sample_points_def make_entry_def
      grade_bucket_zero example_floats float_of_double_zero stored_mean_def cache_insert_def
      cache_clear_def apply_entry_def get0_def get1_def get2_def get3_def
      POSTING_INTERVAL_def kMinimumInterval_def)

text \<open>
  The theorem at a tunnel of 5 metres that is the only record of its tile. Without the
  tunnel flag the same edge is sampled and has mean elevation 13.
\<close>

theorem tunnel_ferry_precedes_short_edge_witness:
  "tunnel (example_edge\<lparr>length_m := 5, tunnel := True\<rparr>) \<and>
   length_m (example_edge\<lparr>length_m := 5, tunnel := True\<rparr>) < 10 \<and>
   get_no_data_value example_env \<noteq> 0 \<and>
   add_elevations_to_single_tile example_env () Map.empty
       (example_tile [example_edge\<lparr>length_m := 5, tunnel := True\<rparr>]) =
     Inr ((), [7 \<mapsto> flat_entry],
          (example_tile [example_edge\<lparr>length_m := 5, tunnel := True,
                                       weighted_grade_field := 6\<rparr>])
            \<lparr>has_elevation := True, mean_elevation := [7 \<mapsto> 0]\<rparr>,
          [(7, [])]) \<and>
   compute_grades example_env [(0, 10), (0, 12), (0, 16)]
       (example_edge\<lparr>length_m := 5, tunnel := True\<rparr>) =
     Inr ((0, 0, 0, 0), (0, 0, 0, 0), []) \<and>
   compute_grades example_env [(0, 10), (0, 12), (0, 16)] (example_edge\<lparr>length_m := 5\<rparr>) =
     Inr ((0, 0, 0, 13), (0, 0, 0, 13),
          [GetAll [(0, 10), (0, 16)], WeightedGrade [10, 16] 5])"
proof -
  let ?e = "example_edge\<lparr>length_m := 5, tunnel := True\<rparr>"
  let ?t = "example_tile [?e]"
  let ?t' = "(example_tile [example_edge\<lparr>length_m := 5, tunnel := True,
                                       weighted_grade_field := 6\<rparr>])
            \<lparr>has_elevation := True, mean_elevation := [7 \<mapsto> 0]\<rparr>"
  have run: "add_elevations_to_single_tile example_env () Map.empty ?t =
               Inr ((), [7 \<mapsto> flat_entry], ?t', [(7, [])])"
    by (simp add: example_env_def example_edge_def example_tile_def flat_entry_def
        add_elevations_to_single_tile_def find_or_compute_def compute_grades_def make_entry_def
        grade_bucket_zero float_of_double_zero stored_mean_def cache_insert_def cache_clear_def
        apply_entry_def get0_def get1_def get2_def get3_def)
  have k: "0 < length (directededges ?t)" by (simp add: example_tile_def)
  have off: "7 = edgeinfo_offset (directededges ?t ! 0)"
    by (simp add: example_tile_def example_edge_def)
  have first: "\<forall>j<0. edgeinfo_offset (directededges ?t ! j) \<noteq> 7" by simp
  have tf: "tunnel (directededges ?t ! 0) \<or> use (directededges ?t ! 0) = kFerry"
    by (simp add: example_tile_def)
  have nd: "get_no_data_value example_env \<noteq> 0" by (simp add: example_env_def)
  have s: "compute_grades example_env [(0, 10), (0, 12), (0, 16)] (example_edge\<lparr>length_m := 5\<rparr>) =
     Inr ((0, 0, 0, 13), (0, 0, 0, 13),
          [GetAll [(0, 10), (0, 16)], WeightedGrade [10, 16] 5])"
    by (simp add: compute_grades_def sample_points_def example_edge_def example_env_def
        example_heights_def example_weighted_grade_def POSTING_INTERVAL_def kMinimumInterval_def
        get3_def)
  from tunnel_ferry_precedes_short_edge [OF run k off first tf nd, of "[(0, 10), (0, 12), (0, 16)]"]
    run nd s
  show ?thesis
    by (simp add: example_tile_def example_edge_def)
qed

end
